theory Spec2Isabelle
  imports Complex_Main "HOL-Library.AList" "HOL-Library.Multiset"
    "HOL-Library.List_Lexorder" "HOL-Library.Char_ord" "HOL-Library.Sublist"
begin

section \<open>Data model (types.ts)\<close>

text \<open>
  JavaScript numbers are modelled as exact rationals: the finite values a \<open>number\<close> holds,
  with exact arithmetic. A numeric field that may be absent from a stored record
  (\<open>undefined\<close>) is an \<open>option\<close>, and so is a number that may be \<open>NaN\<close>;
  \<open>x || d\<close> on such a value is \<open>orDefault\<close>. The counters of a summary only ever count up
  from 0 and are natural numbers.

  Fields keep the names of types.ts. Where two interfaces share a field name, or the name
  is taken in HOL, the field is prefixed: \<open>entry_id\<close> and \<open>entry_count\<close> are \<open>id\<close> and \<open>count\<close> of
  an entry, \<open>s_tank\<close>, \<open>s_crateCount\<close> and \<open>s_shrimpCount\<close> are \<open>tank\<close>, \<open>crateCount\<close> and
  \<open>shrimpCount\<close> of a summary, \<open>cfg_crateWeight\<close> is \<open>crateWeight\<close> of the settings.
\<close>

record HarvestEntry =
  entry_id :: string
  tank :: string
  entry_count :: rat
  weight :: rat
  crateWeight :: "rat option"
  crateCount :: "rat option"
  team :: string
  timestamp :: string
  synced :: bool

record HarvestSettings =
  activeTank :: string
  shrimpCount :: rat
  tankCounts :: "string \<rightharpoonup> rat"
  tankPrices :: "string \<rightharpoonup> string"
  cfg_crateWeight :: rat
  teamName :: string

record TankSummary =
  s_tank :: string
  entryCount :: nat
  patluCount :: nat
  singlesCount :: nat
  s_crateCount :: rat
  totalWeight :: rat
  absoluteWeight :: rat
  s_shrimpCount :: rat

text \<open>\<open>x || d\<close> on a number: the falsy values are \<open>undefined\<close>, \<open>NaN\<close> and \<open>0\<close>.\<close>

fun orDefault :: "rat option \<Rightarrow> rat \<Rightarrow> rat" where
  "orDefault None d = d"
| "orDefault (Some x) d = (if x = 0 then d else x)"

section \<open>Array.prototype.sort\<close>

text \<open>
  \<open>xs.sort(cmp)\<close> is a stable sort: \<open>a\<close> stays before \<open>b\<close> unless \<open>cmp(a, b) > 0\<close>.
  The model is the stable insertion sort driven by the comparator's sign; for a consistent
  comparator every stable sort returns the same list.
\<close>

fun insertBy :: "('a \<Rightarrow> 'a \<Rightarrow> int) \<Rightarrow> 'a \<Rightarrow> 'a list \<Rightarrow> 'a list" where
  "insertBy cmp x [] = [x]"
| "insertBy cmp x (y # ys) = (if cmp x y \<le> 0 then x # y # ys else y # insertBy cmp x ys)"

definition sortBy :: "('a \<Rightarrow> 'a \<Rightarrow> int) \<Rightarrow> 'a list \<Rightarrow> 'a list" where
  "sortBy cmp xs = foldr (insertBy cmp) xs []"

section \<open>Aggregation engine (AbstractScreen.tsx, RevenueScreen.tsx, HistoryScreen.tsx)\<close>

text \<open>The accumulator literal created for a tank seen for the first time.\<close>

definition zeroSummary :: "HarvestEntry \<Rightarrow> TankSummary" where
  "zeroSummary entry =
     \<lparr> s_tank = tank entry, entryCount = 0, patluCount = 0, singlesCount = 0,
       s_crateCount = 0, totalWeight = 0, absoluteWeight = 0, s_shrimpCount = entry_count entry \<rparr>"

definition entryCrateCount :: "HarvestEntry \<Rightarrow> rat" where
  "entryCrateCount entry = orDefault (crateCount entry) 1"

definition effectiveCrateWeight :: "HarvestEntry \<Rightarrow> rat" where
  "effectiveCrateWeight entry = orDefault (crateWeight entry) (18 / 10)"

text \<open>The body of the \<open>forEach\<close> callback after \<open>current\<close> has been looked up.\<close>

definition accumulate :: "HarvestEntry \<Rightarrow> TankSummary \<Rightarrow> TankSummary" where
  "accumulate entry current =
     current
       \<lparr> entryCount := entryCount current + 1,
         patluCount := (if entryCrateCount entry = 2 then patluCount current + 1
                        else patluCount current),
         singlesCount := (if entryCrateCount entry = 2 then singlesCount current
                          else if entryCrateCount entry = 1 then singlesCount current + 1
                          else singlesCount current),
         s_crateCount := s_crateCount current + entryCrateCount entry,
         totalWeight := totalWeight current + weight entry,
         absoluteWeight := absoluteWeight current
            + (weight entry - entryCrateCount entry * effectiveCrateWeight entry),
         s_shrimpCount := entry_count entry \<rparr>"

text \<open>
  The \<open>Map<string, TankSummary>\<close> is an association list in insertion order:
  \<open>map.get\<close> is \<open>map_of\<close>, \<open>map.set\<close> is \<open>AList.update\<close> (an existing key keeps its place,
  a new key goes last).
\<close>

definition step :: "(string \<times> TankSummary) list \<Rightarrow> HarvestEntry \<Rightarrow> (string \<times> TankSummary) list" where
  "step m entry =
     (let current = (case map_of m (tank entry) of Some c \<Rightarrow> c | None \<Rightarrow> zeroSummary entry)
      in AList.update (tank entry) (accumulate entry current) m)"

definition tankMap :: "HarvestEntry list \<Rightarrow> (string \<times> TankSummary) list" where
  "tankMap es = foldl step [] es"

text \<open>
  \<open>Array.from(map.values()).sort((a, b) => a.tank.localeCompare(b.tank))\<close>. The collation
  \<open>localeCompare\<close> belongs to the platform and is a parameter \<open>lc\<close>.
\<close>

definition summaries :: "(string \<Rightarrow> string \<Rightarrow> int) \<Rightarrow> HarvestEntry list \<Rightarrow> TankSummary list" where
  "summaries lc es =
     sortBy (\<lambda>a b. lc (s_tank a) (s_tank b)) (map snd (tankMap es))"

definition totalAbsolute :: "TankSummary list \<Rightarrow> rat" where
  "totalAbsolute ss = foldl (\<lambda>acc s. acc + absoluteWeight s) 0 ss"

definition totalGross :: "TankSummary list \<Rightarrow> rat" where
  "totalGross ss = foldl (\<lambda>acc s. acc + totalWeight s) 0 ss"

definition totalCrates :: "TankSummary list \<Rightarrow> rat" where
  "totalCrates ss = foldl (\<lambda>acc s. acc + s_crateCount s) 0 ss"

definition totalPatlu :: "TankSummary list \<Rightarrow> nat" where
  "totalPatlu ss = foldl (\<lambda>acc s. acc + patluCount s) 0 ss"

definition totalSingles :: "TankSummary list \<Rightarrow> nat" where
  "totalSingles ss = foldl (\<lambda>acc s. acc + singlesCount s) 0 ss"

text \<open>
  A JavaScript division never throws; by zero it yields \<open>NaN\<close> or an infinity. \<open>None\<close>
  stands for such a non-finite quotient.
\<close>

definition divide_js :: "rat \<Rightarrow> rat \<Rightarrow> rat option" where
  "divide_js a b = (if b = 0 then None else Some (a / b))"

definition netEfficiency :: "TankSummary list \<Rightarrow> rat option" where
  "netEfficiency ss =
     (if totalGross ss > 0
      then map_option (\<lambda>q. q * 100) (divide_js (totalAbsolute ss) (totalGross ss))
      else Some 0)"

text \<open>The entries of one tank, in input order.\<close>

definition tankEntries :: "string \<Rightarrow> HarvestEntry list \<Rightarrow> HarvestEntry list" where
  "tankEntries t es = filter (\<lambda>e. tank e = t) es"



text \<open>
  The configured settings (db.ts, \<open>getSettings\<close>): the defaults returned when nothing is
  stored.
\<close>

definition defaults :: HarvestSettings where
  "defaults =
     \<lparr> activeTank = ''Tank 1'', shrimpCount = 100, tankCounts = Map.empty,
       tankPrices = Map.empty, cfg_crateWeight = 10, teamName = ''Team'' \<rparr>"

text \<open>
  The per-container net weight as the specification words it: the tare of an entry whose
  crate weight is zero or missing is taken from the configured default crate weight
  \<open>cfg_crateWeight\<close> of the settings.
\<close>

definition spec_absoluteWeight :: "HarvestSettings \<Rightarrow> string \<Rightarrow> HarvestEntry list \<Rightarrow> rat" where
  "spec_absoluteWeight cfg t es =
     foldl (\<lambda>acc e. acc + (weight e
              - orDefault (crateCount e) 1 * orDefault (crateWeight e) (cfg_crateWeight cfg)))
       0 (tankEntries t es)"

section \<open>PDF export (SyncManager.tsx, handleDownloadPDF)\<close>










section \<open>Entry store (db.ts)\<close>

text \<open>
  The object store \<open>harvest_entries\<close> (key path \<open>id\<close>) is the list of its records in key
  order. \<open>openOk\<close> tells whether \<open>indexedDB.open\<close> succeeds, \<open>txOk\<close> whether a transaction on
  the store completes; a transaction that aborts leaves the store as it was. A promise
  that rejects is \<open>Inl\<close>, one that resolves is \<open>Inr\<close>.
\<close>

datatype dbError = ConnectionFailed | TransactionError

record IDB =
  openOk :: bool
  txOk :: bool
  objects :: "HarvestEntry list"

text \<open>The invariant of an object store: the records are in key order, so no key occurs twice.\<close>

definition wfStore :: "HarvestEntry list \<Rightarrow> bool" where
  "wfStore s = sorted_wrt (\<lambda>a b. entry_id a < entry_id b) s"

fun storeGet :: "string \<Rightarrow> HarvestEntry list \<Rightarrow> HarvestEntry option" where
  "storeGet k [] = None"
| "storeGet k (x # xs) = (if entry_id x = k then Some x else storeGet k xs)"

fun storePut :: "HarvestEntry \<Rightarrow> HarvestEntry list \<Rightarrow> HarvestEntry list" where
  "storePut e [] = [e]"
| "storePut e (x # xs) =
     (if entry_id e = entry_id x then e # xs
      else if entry_id e < entry_id x then e # x # xs
      else x # storePut e xs)"

definition storeDelete :: "string \<Rightarrow> HarvestEntry list \<Rightarrow> HarvestEntry list" where
  "storeDelete k s = filter (\<lambda>x. entry_id x \<noteq> k) s"

definition saveEntry :: "HarvestEntry \<Rightarrow> IDB \<Rightarrow> dbError + IDB" where
  "saveEntry entry d =
     (if \<not> openOk d then Inl ConnectionFailed
      else if \<not> txOk d then Inl TransactionError
      else Inr (d\<lparr>objects := storePut entry (objects d)\<rparr>))"

text \<open>\<open>getAllEntries\<close> of db.ts: every failure rejects; the result is sorted by timestamp, latest first.\<close>

definition getAllEntries :: "(string \<Rightarrow> string \<Rightarrow> int) \<Rightarrow> IDB \<Rightarrow> dbError + HarvestEntry list" where
  "getAllEntries lc d =
     (if \<not> openOk d then Inl ConnectionFailed
      else if \<not> txOk d then Inl TransactionError
      else Inr (sortBy (\<lambda>a b. lc (timestamp b) (timestamp a)) (objects d)))"

text \<open>
  \<open>getAllEntries\<close> of the second copy of the service (unnamed part 004): \<open>await this.getDB()\<close>
  stands inside \<open>try\<close>, and the \<open>catch\<close> returns \<open>[]\<close>. The promise of the request is returned
  without \<open>await\<close>, so its rejection passes the \<open>catch\<close> by.
\<close>

definition getAllEntries_part004 :: "IDB \<Rightarrow> dbError + HarvestEntry list" where
  "getAllEntries_part004 d =
     (if \<not> openOk d then Inr []
      else if \<not> txOk d then Inl TransactionError
      else Inr (objects d))"

definition getCount :: "IDB \<Rightarrow> dbError + nat" where
  "getCount d =
     (if \<not> openOk d then Inl ConnectionFailed
      else if \<not> txOk d then Inl TransactionError
      else Inr (length (objects d)))"

definition deleteEntry :: "string \<Rightarrow> IDB \<Rightarrow> dbError + IDB" where
  "deleteEntry k d =
     (if \<not> openOk d then Inl ConnectionFailed
      else if \<not> txOk d then Inl TransactionError
      else Inr (d\<lparr>objects := storeDelete k (objects d)\<rparr>))"

definition deleteEntries :: "string list \<Rightarrow> IDB \<Rightarrow> dbError + IDB" where
  "deleteEntries ids d =
     (if \<not> openOk d then Inl ConnectionFailed
      else if \<not> txOk d then Inl TransactionError
      else Inr (d\<lparr>objects := foldl (\<lambda>s k. storeDelete k s) (objects d) ids\<rparr>))"

text \<open>
  \<open>markEntriesSynced\<close> (db.ts) and \<open>markSynced\<close> (unnamed part 004) have the same body. All
  \<open>store.get\<close> requests are placed by the \<open>forEach\<close> before any of them succeeds, so every
  read sees the store as the transaction found it; each \<open>onsuccess\<close> that found a record
  sets its \<open>synced\<close> and places a \<open>store.put\<close>. An id that is not found places nothing.
\<close>

definition markSynced :: "string list \<Rightarrow> IDB \<Rightarrow> dbError + IDB" where
  "markSynced ids d =
     (if \<not> openOk d then Inl ConnectionFailed
      else if \<not> txOk d then Inl TransactionError
      else Inr (d\<lparr>objects :=
             foldl (\<lambda>s r. storePut (r\<lparr>synced := True\<rparr>) s) (objects d)
               (List.map_filter (\<lambda>k. storeGet k (objects d)) ids)\<rparr>))"

section \<open>Application state and handlers (App.tsx, CrateEntry.tsx)\<close>

text \<open>
  The state of \<open>App\<close> the handlers read and write, with the device's store. \<open>alerts\<close> are the
  messages shown by \<open>alert\<close>; \<open>saveEntryCalls\<close> counts the calls of \<open>DBService.saveEntry\<close>.
\<close>

record AppState =
  db :: IDB
  entries :: "HarvestEntry list"
  settings :: HarvestSettings
  lastSaved :: "rat option"
  alerts :: "string list"
  saveEntryCalls :: nat

text \<open>The result of \<open>parseFloat\<close> on the weight field: \<open>NaN\<close> or a finite number.\<close>

datatype parsed = NaN | Num rat

text \<open>\<open>newId\<close> is what \<open>DBService.generateId()\<close> returns, \<open>now\<close> is \<open>new Date().toISOString()\<close>.\<close>

definition handleAddEntry :: "rat \<Rightarrow> rat \<Rightarrow> string \<Rightarrow> string \<Rightarrow> AppState \<Rightarrow> AppState" where
  "handleAddEntry w cc newId now st =
     (let newEntry =
            \<lparr> entry_id = newId, tank = activeTank (settings st),
              entry_count = shrimpCount (settings st), weight = w,
              crateWeight = Some (cfg_crateWeight (settings st)), crateCount = Some cc,
              team = teamName (settings st), timestamp = now, synced = False \<rparr>;
          st1 = st\<lparr>saveEntryCalls := saveEntryCalls st + 1\<rparr>
      in case saveEntry newEntry (db st1) of
           Inr d \<Rightarrow> st1\<lparr>db := d, lastSaved := Some w, entries := newEntry # entries st1\<rparr>
         | Inl err \<Rightarrow> st1\<lparr>alerts := alerts st1 @ [''Database error. Please restart the app.'']\<rparr>)"

text \<open>\<open>handleSave\<close> of CrateEntry, with \<open>onSave = handleAddEntry\<close>.\<close>

definition handleSave :: "parsed \<Rightarrow> rat \<Rightarrow> string \<Rightarrow> string \<Rightarrow> AppState \<Rightarrow> AppState" where
  "handleSave numWeight cc newId now st =
     (case numWeight of
        NaN \<Rightarrow> st
      | Num w \<Rightarrow> if w > 0 then handleAddEntry w cc newId now st else st)"

definition loadData :: "(string \<Rightarrow> string \<Rightarrow> int) \<Rightarrow> AppState \<Rightarrow> AppState" where
  "loadData lc st =
     (case getAllEntries lc (db st) of
        Inr allEntries \<Rightarrow> st\<lparr>entries := allEntries\<rparr>
      | Inl err \<Rightarrow> st)"

text \<open>\<open>ts.startsWith(date)\<close> and \<open>ts.split('T')[0]\<close>.\<close>

fun startsWith :: "string \<Rightarrow> string \<Rightarrow> bool" where
  "startsWith [] ts = True"
| "startsWith (c # cs) [] = False"
| "startsWith (c # cs) (d # ds) = (c = d \<and> startsWith cs ds)"

definition datePrefix :: "string \<Rightarrow> string" where
  "datePrefix ts = takeWhile (\<lambda>c. c \<noteq> CHR ''T'') ts"

text \<open>
  The timestamps the application writes: \<open>new Date().toISOString()\<close> (App.tsx, the only
  place a timestamp is made; an edit keeps it) has the form \<open>YYYY-MM-DDTHH:mm:ss.sssZ\<close>. In
  the pattern \<open>d\<close> stands for a digit.
\<close>

definition isDigit :: "char \<Rightarrow> bool" where
  "isDigit c = (c \<in> set ''0123456789'')"

fun matches :: "string \<Rightarrow> string \<Rightarrow> bool" where
  "matches [] [] = True"
| "matches (p # ps) (c # cs) = ((if p = CHR ''d'' then isDigit c else c = p) \<and> matches ps cs)"
| "matches [] (c # cs) = False"
| "matches (p # ps) [] = False"

definition isoInstant :: "string \<Rightarrow> bool" where
  "isoInstant ts = matches ''dddd-dd-ddTdd:dd:dd.dddZ'' ts"

definition handleDeleteHistoryDate :: "(string \<Rightarrow> string \<Rightarrow> int) \<Rightarrow> string \<Rightarrow> AppState \<Rightarrow> AppState" where
  "handleDeleteHistoryDate lc date st =
     (let idsToDelete = map entry_id (filter (\<lambda>e. startsWith date (timestamp e)) (entries st))
      in if length idsToDelete > 0
         then (case deleteEntries idsToDelete (db st) of
                 Inr d \<Rightarrow> loadData lc (st\<lparr>db := d\<rparr>)
               | Inl err \<Rightarrow> st\<lparr>alerts := alerts st @ [''Failed to delete history for '' @ date]\<rparr>)
         else st)"

section \<open>Grouping and reporting (HistoryScreen.tsx, LogScreen)\<close>

text \<open>
  A plain object used as a dictionary (\<open>groups: Record<string, HarvestEntry[]>\<close>) is an
  association list in the order its keys were created. A key that \<open>Object.prototype\<close>
  answers is never created: \<open>groups[k]\<close> is then the inherited value, \<open>!groups[k]\<close> is false,
  and \<open>groups[k].push(entry)\<close> throws a \<open>TypeError\<close>; \<open>None\<close> stands for that exception.
  \<open>Object.entries\<close> lists the keys that are array indices first, in ascending numeric order,
  then the other keys in the order of their creation.
\<close>

definition protoKeys :: "string list" where
  "protoKeys =
     [''constructor'', ''__proto__'', ''hasOwnProperty'', ''isPrototypeOf'',
      ''propertyIsEnumerable'', ''toLocaleString'', ''toString'', ''valueOf'',
      ''__defineGetter__'', ''__defineSetter__'', ''__lookupGetter__'', ''__lookupSetter__'']"

definition digitsValue :: "string \<Rightarrow> nat" where
  "digitsValue k = foldl (\<lambda>n c. 10 * n + (of_char c - 48)) 0 k"

definition isArrayIndex :: "string \<Rightarrow> bool" where
  "isArrayIndex k =
     (k \<noteq> [] \<and> list_all isDigit k \<and> (k = ''0'' \<or> hd k \<noteq> CHR ''0'') \<and>
      digitsValue k < 4294967295)"

definition objectEntries :: "(string \<times> 'a) list \<Rightarrow> (string \<times> 'a) list" where
  "objectEntries obj =
     sort_key (\<lambda>p. digitsValue (fst p)) (filter (\<lambda>p. isArrayIndex (fst p)) obj)
     @ filter (\<lambda>p. \<not> isArrayIndex (fst p)) obj"

definition pushGroup :: "string \<Rightarrow> HarvestEntry \<Rightarrow> (string \<times> HarvestEntry list) list \<Rightarrow> (string \<times> HarvestEntry list) list option" where
  "pushGroup k entry groups =
     (if k \<in> set protoKeys then None
      else Some (AList.update k
                  ((case map_of groups k of None \<Rightarrow> [] | Some g \<Rightarrow> g) @ [entry]) groups))"

text \<open>The \<open>forEach\<close> that fills \<open>groups\<close>, keyed by \<open>key\<close>; it stops at the first exception.\<close>

fun groupBy :: "(HarvestEntry \<Rightarrow> string) \<Rightarrow> (string \<times> HarvestEntry list) list \<Rightarrow> HarvestEntry list \<Rightarrow> (string \<times> HarvestEntry list) list option" where
  "groupBy key groups [] = Some groups"
| "groupBy key groups (entry # es) =
     (case pushGroup (key entry) entry groups of
        None \<Rightarrow> None
      | Some groups' \<Rightarrow> groupBy key groups' es)"

text \<open>\<open>groupedByDate\<close> (HistoryScreen.tsx): the buckets by date prefix, sorted latest first.\<close>

definition groupedByDate :: "(string \<Rightarrow> string \<Rightarrow> int) \<Rightarrow> HarvestEntry list \<Rightarrow> (string \<times> HarvestEntry list) list option" where
  "groupedByDate lc es =
     map_option (\<lambda>groups. sortBy (\<lambda>a b. lc (fst b) (fst a)) (objectEntries groups))
       (groupBy (\<lambda>entry. datePrefix (timestamp entry)) [] es)"

text \<open>
  The log view. \<open>new Date(ts).getTime()\<close> belongs to the platform and is a parameter \<open>tm\<close>,
  the milliseconds of a timestamp that parses. One tank's rows are its entries sorted
  latest first, each labelled \<open>totalInTank - idx\<close>.
\<close>

definition byTimeDesc :: "(string \<Rightarrow> int) \<Rightarrow> HarvestEntry \<Rightarrow> HarvestEntry \<Rightarrow> int" where
  "byTimeDesc tm a b = tm (timestamp b) - tm (timestamp a)"

definition byTimeAsc :: "(string \<Rightarrow> int) \<Rightarrow> HarvestEntry \<Rightarrow> HarvestEntry \<Rightarrow> int" where
  "byTimeAsc tm a b = tm (timestamp a) - tm (timestamp b)"

definition groupByTank :: "HarvestEntry list \<Rightarrow> (string \<times> HarvestEntry list) list option" where
  "groupByTank es = groupBy tank [] es"

text \<open>
  \<open>sortedGroupedEntries\<close>: every group is sorted latest first, and the groups are ordered
  by the time of their first row. A group is never empty.
\<close>

definition tankLastActivity :: "(string \<Rightarrow> int) \<Rightarrow> HarvestEntry list \<Rightarrow> int" where
  "tankLastActivity tm g = (case g of [] \<Rightarrow> 0 | e # rest \<Rightarrow> tm (timestamp e))"

definition sortedGroupedEntries :: "(string \<Rightarrow> int) \<Rightarrow> HarvestEntry list \<Rightarrow> (string \<times> HarvestEntry list) list option" where
  "sortedGroupedEntries tm es =
     map_option
       (\<lambda>groups. sortBy (\<lambda>a b. tankLastActivity tm (snd b) - tankLastActivity tm (snd a))
          (objectEntries (map (\<lambda>(t, g). (t, sortBy (byTimeDesc tm) g)) groups)))
       (groupByTank es)"

definition serialNumber :: "nat \<Rightarrow> nat \<Rightarrow> int" where
  "serialNumber totalInTank idx = int totalInTank - int idx"

definition tankRows :: "HarvestEntry list \<Rightarrow> (HarvestEntry \<times> int) list" where
  "tankRows tankEntries' =
     map (\<lambda>(idx, entry). (entry, serialNumber (length tankEntries') idx)) (enumerate 0 tankEntries')"

definition logRows :: "(string \<Rightarrow> int) \<Rightarrow> HarvestEntry list \<Rightarrow> (HarvestEntry \<times> int) list" where
  "logRows tm g = tankRows (sortBy (byTimeDesc tm) g)"

text \<open>
  The daily report's \<open>serialMap\<close>: the raw entries (already sorted latest first) are sorted
  oldest first and numbered by a counter per tank. The counters are a plain object: for a
  tank that \<open>Object.prototype\<close> answers, \<open>(tankEntryCounters[e.tank] || 0) + 1\<close> is not a number
  but a string, and the model gives \<open>None\<close>.
\<close>

definition countSerial :: "(string \<times> int) list \<times> (string \<times> int) list \<Rightarrow> HarvestEntry \<Rightarrow> (string \<times> int) list \<times> (string \<times> int) list" where
  "countSerial acc e =
     (let tankEntryCounters = fst acc; smap = snd acc;
          n = (case map_of tankEntryCounters (tank e) of None \<Rightarrow> 0 | Some c \<Rightarrow> c) + 1
      in (AList.update (tank e) n tankEntryCounters, AList.update (entry_id e) n smap))"

definition serialMap :: "(string \<Rightarrow> int) \<Rightarrow> HarvestEntry list \<Rightarrow> (string \<times> int) list option" where
  "serialMap tm dateEntries =
     (let rawEntries = sortBy (byTimeDesc tm) dateEntries;
          processedEntries = sortBy (byTimeAsc tm) rawEntries
      in if list_ex (\<lambda>e. tank e \<in> set protoKeys) processedEntries then None
         else Some (snd (foldl countSerial ([], []) processedEntries)))"

text \<open>
  Chronological serial numbering as the specification words it: the entries of one
  container sorted by ascending timestamp, numbered 1..N in that order.
\<close>

definition spec_serials :: "(string \<Rightarrow> int) \<Rightarrow> HarvestEntry list \<Rightarrow> (HarvestEntry \<times> int) list" where
  "spec_serials tm g = zip (sortBy (byTimeAsc tm) g) (map int [1 ..< Suc (length g)])"

section \<open>Gross weight in floating point (AbstractScreen.tsx, HistoryScreen.tsx)\<close>












section \<open>Facts about the sort\<close>

lemma set_insertBy: "set (insertBy cmp x ys) = insert x (set ys)"
  by (induction ys) auto

lemma set_sortBy: "set (sortBy cmp xs) = set xs"
  by (induction xs) (simp_all add: sortBy_def set_insertBy)

lemma mset_insertBy: "mset (insertBy cmp x ys) = add_mset x (mset ys)"
  by (induction ys) auto

lemma mset_sortBy: "mset (sortBy cmp xs) = mset xs"
  by (induction xs) (simp_all add: sortBy_def mset_insertBy)

lemma length_sortBy: "length (sortBy cmp xs) = length xs"
  using mset_sortBy [of cmp xs] by (metis size_mset)

lemma sum_list_sortBy:
  fixes f :: "'a \<Rightarrow> 'b::comm_monoid_add"
  shows "sum_list (map f (sortBy cmp xs)) = sum_list (map f xs)"
  using mset_sortBy [of cmp xs] by (metis mset_map sum_mset_sum_list)


lemma foldl_plus_sum_list:
  fixes f :: "'a \<Rightarrow> 'b::comm_monoid_add"
  shows "foldl (\<lambda>acc s. acc + f s) a xs = a + sum_list (map f xs)"
  by (induction xs arbitrary: a) (simp_all add: add.assoc)

lemma insertBy_diff:
  fixes f :: "'a \<Rightarrow> int"
  shows "insertBy (\<lambda>a b. f a - f b) x ys = insort_key f x ys"
  by (induction ys) auto

lemma sortBy_diff:
  fixes f :: "'a \<Rightarrow> int"
  shows "sortBy (\<lambda>a b. f a - f b) xs = sort_key f xs"
  by (induction xs) (simp_all add: sortBy_def insertBy_diff)

lemma sortBy_byTimeAsc: "sortBy (byTimeAsc tm) g = sort_key (\<lambda>e. tm (timestamp e)) g"
  using sortBy_diff [of "\<lambda>e. tm (timestamp e)" g] by (simp add: byTimeAsc_def [abs_def])

lemma sortBy_byTimeDesc: "sortBy (byTimeDesc tm) g = sort_key (\<lambda>e. - tm (timestamp e)) g"
  using sortBy_diff [of "\<lambda>e. - tm (timestamp e)" g] by (simp add: byTimeDesc_def [abs_def])

lemma sorted_key_unique:
  fixes f :: "'a \<Rightarrow> int"
  assumes "sorted (map f xs)" and "sorted (map f ys)" and "distinct (map f xs)"
    and "mset xs = mset ys"
  shows "xs = ys"
proof -
  have set_eq: "set xs = set ys" using assms(4) by (rule mset_eq_setD)
  have "distinct (map f ys)" using assms(3,4) by (metis mset_map mset_eq_imp_distinct_iff)
  moreover have "set (map f xs) = set (map f ys)" using set_eq by simp
  ultimately have "map f xs = map f ys"
    using assms(1,2,3) by (intro sorted_distinct_set_unique)
  moreover have "inj_on f (set xs \<union> set ys)"
    using assms(3) set_eq by (simp add: distinct_map)
  ultimately show ?thesis by (rule inj_on_map_eq_map [THEN iffD1, rotated])
qed

lemma sort_key_perm:
  fixes f :: "'a \<Rightarrow> int"
  assumes "distinct (map f xs)" and "mset ys = mset xs"
  shows "sort_key f ys = sort_key f xs"
proof (rule sorted_key_unique [where f = f])
  show "sorted (map f (sort_key f ys))" "sorted (map f (sort_key f xs))" by simp_all
  show "mset (sort_key f ys) = mset (sort_key f xs)" using assms(2) by simp
  have "mset (map f (sort_key f ys)) = mset (map f xs)" using assms(2) by simp
  then show "distinct (map f (sort_key f ys))" using assms(1)
    by (metis mset_eq_imp_distinct_iff)
qed

lemma sort_key_uminus:
  fixes f :: "'a \<Rightarrow> int"
  assumes "distinct (map f xs)"
  shows "sort_key (\<lambda>x. - f x) xs = rev (sort_key f xs)"
proof (rule sorted_key_unique [where f = "\<lambda>x. - f x"])
  show "sorted (map (\<lambda>x. - f x) (sort_key (\<lambda>x. - f x) xs))" by simp
  have "sorted (map f (sort_key f xs))" by simp
  then have "sorted (rev (map (\<lambda>x. - f x) (sort_key f xs)))"
    by (simp add: sorted_wrt_rev sorted_map sorted_wrt_map)
  then show "sorted (map (\<lambda>x. - f x) (rev (sort_key f xs)))" by (simp add: rev_map)
  show "mset (sort_key (\<lambda>x. - f x) xs) = mset (rev (sort_key f xs))" by simp
  have "inj_on f (set xs)" using assms by (simp add: distinct_map)
  then have "inj_on (\<lambda>x. - f x) (set xs)" by (simp add: inj_on_def)
  moreover have "distinct xs" using assms by (simp add: distinct_map)
  ultimately show "distinct (map (\<lambda>x. - f x) (sort_key (\<lambda>x. - f x) xs))"
    by (simp add: distinct_map)
qed

section \<open>Facts about the engine's loop\<close>

lemma map_of_step:
  "map_of (step m e) t =
     (if tank e = t
      then Some (accumulate e (case map_of m t of Some c \<Rightarrow> c | None \<Rightarrow> zeroSummary e))
      else map_of m t)"
  by (simp add: step_def Let_def update_conv')

lemma map_of_foldl_step:
  "map_of (foldl step m es) t =
     (case map_of m t of
        Some c \<Rightarrow> Some (foldl (\<lambda>c e. accumulate e c) c (tankEntries t es))
      | None \<Rightarrow> (case tankEntries t es of
                   [] \<Rightarrow> None
                 | x # xs \<Rightarrow> Some (foldl (\<lambda>c e. accumulate e c) (zeroSummary x) (x # xs))))"
proof (induction es arbitrary: m)
  case Nil
  then show ?case by (simp add: tankEntries_def split: option.splits)
next
  case (Cons e es)
  show ?case
    by (simp add: Cons.IH map_of_step tankEntries_def split: option.splits list.splits)
qed

lemma keyed_update:
  "map (f \<circ> snd) al = map fst al \<Longrightarrow> f v = k \<Longrightarrow>
   map (f \<circ> snd) (AList.update k v al) = map fst (AList.update k v al)"
  by (induction al) auto

lemma s_tank_accumulate: "s_tank (accumulate e c) = s_tank c"
  by (simp add: accumulate_def)

lemma keyed_step:
  assumes "map (s_tank \<circ> snd) m = map fst m"
  shows "map (s_tank \<circ> snd) (step m e) = map fst (step m e)"
proof -
  let ?c = "case map_of m (tank e) of Some c \<Rightarrow> c | None \<Rightarrow> zeroSummary e"
  have "s_tank ?c = tank e"
  proof (cases "map_of m (tank e)")
    case None
    then show ?thesis by (simp add: zeroSummary_def)
  next
    case (Some c)
    then have "(tank e, c) \<in> set m" by (rule map_of_SomeD)
    then have "(s_tank \<circ> snd) (tank e, c) \<in> set (map (s_tank \<circ> snd) m)" 
      by (metis image_eqI set_map)
    moreover have "\<And>x. x \<in> set m \<Longrightarrow> (s_tank \<circ> snd) x = fst x"
      using assms by (metis map_eq_conv)
    ultimately show ?thesis using Some \<open>(tank e, c) \<in> set m\<close> by fastforce
  qed
  then have "s_tank (accumulate e ?c) = tank e" by (simp add: s_tank_accumulate)
  with assms show ?thesis unfolding step_def Let_def by (rule keyed_update)
qed

lemma keyed_foldl_step:
  "map (s_tank \<circ> snd) m = map fst m \<Longrightarrow>
   map (s_tank \<circ> snd) (foldl step m es) = map fst (foldl step m es)"
proof (induction es arbitrary: m)
  case Nil
  then show ?case by (simp only: foldl.simps)
next
  case (Cons e es)
  from Cons.prems have "map (s_tank \<circ> snd) (step m e) = map fst (step m e)"
    by (rule keyed_step)
  then show ?case unfolding foldl.simps by (rule Cons.IH)
qed

lemma distinct_foldl_step:
  "distinct (map fst m) \<Longrightarrow> distinct (map fst (foldl step m es))"
  by (induction es arbitrary: m) (simp_all add: step_def Let_def distinct_update)

lemma find_unique:
  "distinct (map f xs) \<Longrightarrow> x \<in> set xs \<Longrightarrow> find (\<lambda>y. f y = f x) xs = Some x"
  by (induction xs) (auto simp: rev_image_eqI)

lemma find_keyed:
  assumes "distinct (map fst al)" and keyed: "map (f \<circ> snd) al = map fst al"
    and "mset ys = mset (map snd al)"
  shows "find (\<lambda>s. f s = t) ys = map_of al t"
proof -
  have k: "\<And>x. x \<in> set al \<Longrightarrow> f (snd x) = fst x"
    using keyed by (metis comp_apply map_eq_conv)
  have sets: "set ys = snd ` set al" using assms(3) by (metis mset_eq_setD set_map)
  show ?thesis
  proof (cases "map_of al t")
    case None
    then have "t \<notin> fst ` set al" by (simp add: map_of_eq_None_iff)
    with k have "\<forall>v \<in> set ys. f v \<noteq> t" unfolding sets by force
    then have "find (\<lambda>s. f s = t) ys = None" by (simp add: find_None_iff)
    with None show ?thesis by simp
  next
    case (Some v)
    then have in_al: "(t, v) \<in> set al" by (rule map_of_SomeD)
    with k have fv: "f v = t" by fastforce
    have "distinct (map f (map snd al))" using assms(1) unfolding map_map keyed .
    then have "distinct (map f ys)" using assms(3) by (metis mset_map mset_eq_imp_distinct_iff)
    moreover have "v \<in> set ys" unfolding sets using in_al by force
    ultimately have "find (\<lambda>y. f y = f v) ys = Some v" by (rule find_unique)
    with fv Some show ?thesis by simp
  qed
qed

lemma find_summaries:
  "find (\<lambda>s. s_tank s = t) (summaries lc es) = map_of (tankMap es) t"
  unfolding summaries_def tankMap_def
  by (rule find_keyed) (simp_all add: distinct_foldl_step keyed_foldl_step mset_sortBy)

lemma absoluteWeight_foldl_accumulate:
  "absoluteWeight (foldl (\<lambda>c e. accumulate e c) c xs) =
   foldl (\<lambda>acc e. acc + (weight e - entryCrateCount e * effectiveCrateWeight e))
     (absoluteWeight c) xs"
  by (induction xs arbitrary: c) (simp_all add: accumulate_def)

lemma totalWeight_foldl_accumulate:
  "totalWeight (foldl (\<lambda>c e. accumulate e c) c xs) = totalWeight c + sum_list (map weight xs)"
  by (induction xs arbitrary: c) (simp_all add: accumulate_def)

lemma crateCount_foldl_accumulate:
  "s_crateCount (foldl (\<lambda>c e. accumulate e c) c xs) =
   s_crateCount c + sum_list (map entryCrateCount xs)"
  by (induction xs arbitrary: c) (simp_all add: accumulate_def)

lemma entryCount_foldl_accumulate:
  "entryCount (foldl (\<lambda>c e. accumulate e c) c xs) = entryCount c + length xs"
  by (induction xs arbitrary: c) (simp_all add: accumulate_def)

lemma patluCount_foldl_accumulate:
  "patluCount (foldl (\<lambda>c e. accumulate e c) c xs) =
   patluCount c + length (filter (\<lambda>e. entryCrateCount e = 2) xs)"
  by (induction xs arbitrary: c) (simp_all add: accumulate_def)

lemma singlesCount_foldl_accumulate:
  "singlesCount (foldl (\<lambda>c e. accumulate e c) c xs) =
   singlesCount c + length (filter (\<lambda>e. entryCrateCount e = 1) xs)"
  by (induction xs arbitrary: c) (simp_all add: accumulate_def)

lemma summary_of_tank:
  "find (\<lambda>s. s_tank s = t) (summaries lc es) =
     (case tankEntries t es of
        [] \<Rightarrow> None
      | x # xs \<Rightarrow> Some (foldl (\<lambda>c e. accumulate e c) (zeroSummary x) (x # xs)))"
  by (simp add: find_summaries tankMap_def map_of_foldl_step)

lemma sum_list_update:
  fixes f :: "'v \<Rightarrow> rat"
  shows "(\<Sum>p\<leftarrow>AList.update k v al. f (snd p)) =
    (case map_of al k of
       None \<Rightarrow> (\<Sum>p\<leftarrow>al. f (snd p)) + f v
     | Some c \<Rightarrow> (\<Sum>p\<leftarrow>al. f (snd p)) - f c + f v)"
  by (induction al) (auto split: option.splits)

lemma totalWeight_step:
  "(\<Sum>p\<leftarrow>step m e. totalWeight (snd p)) = (\<Sum>p\<leftarrow>m. totalWeight (snd p)) + weight e"
  by (simp add: step_def Let_def sum_list_update accumulate_def zeroSummary_def
        split: option.splits)

lemma totalWeight_foldl_step:
  "(\<Sum>p\<leftarrow>foldl step m es. totalWeight (snd p)) =
   (\<Sum>p\<leftarrow>m. totalWeight (snd p)) + sum_list (map weight es)"
  by (induction es arbitrary: m) (simp_all add: totalWeight_step)

section \<open>Claims about the aggregation engine\<close>

text \<open>
  C1 (as amended). For every list of entries, the engine's per-container \<open>absoluteWeight\<close>
  is the sum, over that container's entries in input order, of
  \<open>weight - entryCrateCount * effectiveCrateWeight\<close>, where a zero or missing \<open>crateCount\<close>
  counts as 1 and a zero or missing \<open>crateWeight\<close> is replaced by the constant 1.8 written
  in the engine; the configured crate weight of the settings is not consulted. The terms
  are not clamped, so the sum may be negative. A container without entries has no summary.
\<close>

theorem absoluteWeight_per_tank:
  "map_option absoluteWeight (find (\<lambda>s. s_tank s = t) (summaries lc es)) =
     (if tankEntries t es = [] then None
      else Some (foldl (\<lambda>acc e. acc + (weight e
                   - orDefault (crateCount e) 1 * orDefault (crateWeight e) (18 / 10)))
                 0 (tankEntries t es)))"
proof (cases "tankEntries t es")
  case Nil
  then show ?thesis by (simp add: summary_of_tank)
next
  case (Cons x xs)
  have "absoluteWeight (foldl (\<lambda>c e. accumulate e c) (zeroSummary x) (x # xs)) =
        foldl (\<lambda>acc e. acc + (weight e - entryCrateCount e * effectiveCrateWeight e)) 0 (x # xs)"
    unfolding absoluteWeight_foldl_accumulate by (simp add: zeroSummary_def)
  then show ?thesis
    unfolding summary_of_tank Cons entryCrateCount_def effectiveCrateWeight_def by simp
qed

text \<open>
  One entry of 1 kg whose crate count is 0 and whose crate weight is missing: the tare is
  1 * 1.8, and the net weight of the tank is -0.8.
\<close>

theorem absoluteWeight_per_tank_witness:
  "map_option absoluteWeight
     (find (\<lambda>s. s_tank s = ''Tank 1'')
        (summaries (\<lambda>a b. 0)
           [\<lparr> entry_id = ''a'', tank = ''Tank 1'', entry_count = 50, weight = 1,
              crateWeight = None, crateCount = Some 0, team = ''Team A'',
              timestamp = ''2024-01-01T10:00:00.000Z'', synced = False \<rparr>]))
   = Some (- (4 / 5))"
  using absoluteWeight_per_tank [of "''Tank 1''" "\<lambda>a b. 0"
      "[\<lparr> entry_id = ''a'', tank = ''Tank 1'', entry_count = 50, weight = 1,
              crateWeight = None, crateCount = Some 0, team = ''Team A'',
              timestamp = ''2024-01-01T10:00:00.000Z'', synced = False \<rparr>]"]
  by (simp add: tankEntries_def)

text \<open>
  With the settings db.ts returns by default, the configured crate weight is 10: an entry of
  20 kg that carries no crate weight has net 18.2 in the engine, not 10. With the crate
  weight configured to 0 and stamped on the entry, the engine still subtracts 1.8: the net
  is 18.2, not 20.
\<close>

theorem absoluteWeight_configured_default_counterexample:
  "map_option absoluteWeight
     (find (\<lambda>s. s_tank s = ''Tank 1'')
        (summaries (\<lambda>a b. 0)
           [\<lparr> entry_id = ''a'', tank = ''Tank 1'', entry_count = 50, weight = 20,
              crateWeight = None, crateCount = Some 1, team = ''Team A'',
              timestamp = ''2024-01-01T10:00:00.000Z'', synced = False \<rparr>]))
   \<noteq> Some (spec_absoluteWeight defaults ''Tank 1''
           [\<lparr> entry_id = ''a'', tank = ''Tank 1'', entry_count = 50, weight = 20,
              crateWeight = None, crateCount = Some 1, team = ''Team A'',
              timestamp = ''2024-01-01T10:00:00.000Z'', synced = False \<rparr>]) \<and>
   map_option absoluteWeight
     (find (\<lambda>s. s_tank s = ''Tank 1'')
        (summaries (\<lambda>a b. 0)
           [\<lparr> entry_id = ''a'', tank = ''Tank 1'', entry_count = 50, weight = 20,
              crateWeight = Some 0, crateCount = Some 1, team = ''Team A'',
              timestamp = ''2024-01-01T10:00:00.000Z'', synced = False \<rparr>]))
   \<noteq> Some (spec_absoluteWeight (defaults\<lparr>cfg_crateWeight := 0\<rparr>) ''Tank 1''
           [\<lparr> entry_id = ''a'', tank = ''Tank 1'', entry_count = 50, weight = 20,
              crateWeight = Some 0, crateCount = Some 1, team = ''Team A'',
              timestamp = ''2024-01-01T10:00:00.000Z'', synced = False \<rparr>])"
  by (simp add: summaries_def tankMap_def step_def sortBy_def accumulate_def zeroSummary_def
        entryCrateCount_def effectiveCrateWeight_def spec_absoluteWeight_def defaults_def
        tankEntries_def)

text \<open>
  C4. One entry processed by the engine adds 1 to \<open>entryCount\<close> and its resolved crate count
  to the \<open>crateCount\<close> sum; it adds 1 to \<open>patluCount\<close> when the resolved crate count is 2, 1
  to \<open>singlesCount\<close> when it is 1, and to neither otherwise. Hence the summary of a tank
  holds the number of its entries, the number of them with resolved crate count 2, the
  number with resolved crate count 1, and the sum of the resolved crate counts.
\<close>

theorem classification_counts:
  "entryCount (accumulate e c) = entryCount c + 1 \<and>
   s_crateCount (accumulate e c) = s_crateCount c + orDefault (crateCount e) 1 \<and>
   patluCount (accumulate e c) =
     (if orDefault (crateCount e) 1 = 2 then patluCount c + 1 else patluCount c) \<and>
   singlesCount (accumulate e c) =
     (if orDefault (crateCount e) 1 = 1 then singlesCount c + 1 else singlesCount c) \<and>
   map_option (\<lambda>s. (entryCount s, patluCount s, singlesCount s, s_crateCount s))
     (find (\<lambda>s. s_tank s = t) (summaries lc es)) =
     (if tankEntries t es = [] then None
      else Some (length (tankEntries t es),
                 length (filter (\<lambda>e. orDefault (crateCount e) 1 = 2) (tankEntries t es)),
                 length (filter (\<lambda>e. orDefault (crateCount e) 1 = 1) (tankEntries t es)),
                 sum_list (map (\<lambda>e. orDefault (crateCount e) 1) (tankEntries t es))))"
proof -
  have step: "entryCount (accumulate e c) = entryCount c + 1 \<and>
   s_crateCount (accumulate e c) = s_crateCount c + orDefault (crateCount e) 1 \<and>
   patluCount (accumulate e c) =
     (if orDefault (crateCount e) 1 = 2 then patluCount c + 1 else patluCount c) \<and>
   singlesCount (accumulate e c) =
     (if orDefault (crateCount e) 1 = 1 then singlesCount c + 1 else singlesCount c)"
    by (simp add: accumulate_def entryCrateCount_def)
  have agg: "map_option (\<lambda>s. (entryCount s, patluCount s, singlesCount s, s_crateCount s))
     (find (\<lambda>s. s_tank s = t) (summaries lc es)) =
     (if tankEntries t es = [] then None
      else Some (length (tankEntries t es),
                 length (filter (\<lambda>e. entryCrateCount e = 2) (tankEntries t es)),
                 length (filter (\<lambda>e. entryCrateCount e = 1) (tankEntries t es)),
                 sum_list (map entryCrateCount (tankEntries t es))))"
  proof (cases "tankEntries t es")
    case Nil
    then show ?thesis by (simp add: summary_of_tank)
  next
    case (Cons x xs)
    show ?thesis
      unfolding summary_of_tank Cons
      by (simp only: list.case option.map entryCount_foldl_accumulate
            patluCount_foldl_accumulate singlesCount_foldl_accumulate
            crateCount_foldl_accumulate)
         (simp add: zeroSummary_def)
  qed
  show ?thesis using step agg unfolding entryCrateCount_def by simp
qed

text \<open>
  A tank with crate counts 2, missing and 3: three entries, one patlu, one single (the
  missing count resolved to 1), six crates; the entry with three crates is in neither
  bucket.
\<close>

theorem classification_counts_witness:
  "map_option (\<lambda>s. (entryCount s, patluCount s, singlesCount s, s_crateCount s))
     (find (\<lambda>s. s_tank s = ''Tank 1'')
        (summaries (\<lambda>a b. 0)
           [\<lparr> entry_id = ''a'', tank = ''Tank 1'', entry_count = 50, weight = 10,
              crateWeight = Some (9 / 5), crateCount = Some 2, team = ''Team A'',
              timestamp = ''2024-01-01T10:00:00.000Z'', synced = False \<rparr>,
            \<lparr> entry_id = ''b'', tank = ''Tank 1'', entry_count = 50, weight = 5,
              crateWeight = Some (9 / 5), crateCount = None, team = ''Team A'',
              timestamp = ''2024-01-01T10:05:00.000Z'', synced = False \<rparr>,
            \<lparr> entry_id = ''c'', tank = ''Tank 1'', entry_count = 50, weight = 12,
              crateWeight = Some (9 / 5), crateCount = Some 3, team = ''Team A'',
              timestamp = ''2024-01-01T10:10:00.000Z'', synced = False \<rparr>]))
   = Some (3, 1, 1, 6)"
  using classification_counts [of
      "\<lparr> entry_id = ''a'', tank = ''Tank 1'', entry_count = 50, weight = 10,
              crateWeight = Some (9 / 5), crateCount = Some 2, team = ''Team A'',
              timestamp = ''2024-01-01T10:00:00.000Z'', synced = False \<rparr>"
      "zeroSummary \<lparr> entry_id = ''a'', tank = ''Tank 1'', entry_count = 50, weight = 10,
              crateWeight = Some (9 / 5), crateCount = Some 2, team = ''Team A'',
              timestamp = ''2024-01-01T10:00:00.000Z'', synced = False \<rparr>"
      "''Tank 1''" "\<lambda>a b. 0"
      "[\<lparr> entry_id = ''a'', tank = ''Tank 1'', entry_count = 50, weight = 10,
              crateWeight = Some (9 / 5), crateCount = Some 2, team = ''Team A'',
              timestamp = ''2024-01-01T10:00:00.000Z'', synced = False \<rparr>,
            \<lparr> entry_id = ''b'', tank = ''Tank 1'', entry_count = 50, weight = 5,
              crateWeight = Some (9 / 5), crateCount = None, team = ''Team A'',
              timestamp = ''2024-01-01T10:05:00.000Z'', synced = False \<rparr>,
            \<lparr> entry_id = ''c'', tank = ''Tank 1'', entry_count = 50, weight = 12,
              crateWeight = Some (9 / 5), crateCount = Some 3, team = ''Team A'',
              timestamp = ''2024-01-01T10:10:00.000Z'', synced = False \<rparr>]",
      THEN conjunct2, THEN conjunct2, THEN conjunct2, THEN conjunct2]
  by (simp add: tankEntries_def numeral_3_eq_3)

text \<open>
  C6 (as amended). The grand totals are plain sums over the emitted summaries, and
  \<open>netEfficiency\<close> is \<open>totalAbsolute / totalGross * 100\<close> when \<open>totalGross\<close> is positive and 0
  otherwise, that is when \<open>totalGross\<close> is zero or negative; it is always a finite number,
  never the result of a division by zero.
\<close>

theorem grand_totals:
  "totalAbsolute ss = sum_list (map absoluteWeight ss) \<and>
   totalGross ss = sum_list (map totalWeight ss) \<and>
   totalCrates ss = sum_list (map s_crateCount ss) \<and>
   totalPatlu ss = sum_list (map patluCount ss) \<and>
   totalSingles ss = sum_list (map singlesCount ss) \<and>
   netEfficiency ss =
     Some (if totalGross ss > 0 then totalAbsolute ss / totalGross ss * 100 else 0)"
  by (simp add: totalAbsolute_def totalGross_def totalCrates_def totalPatlu_def
        totalSingles_def netEfficiency_def divide_js_def foldl_plus_sum_list)

text \<open>Net 6 of gross 10 is 60 percent; no entries give 0.\<close>

theorem grand_totals_witness:
  "netEfficiency (summaries (\<lambda>a b. 0)
     [\<lparr> entry_id = ''a'', tank = ''Tank 1'', entry_count = 50, weight = 10,
        crateWeight = Some 2, crateCount = Some 2, team = ''Team A'',
        timestamp = ''2024-01-01T10:00:00.000Z'', synced = False \<rparr>]) = Some 60 \<and>
   netEfficiency (summaries (\<lambda>a b. 0) []) = Some 0"
  using grand_totals [of "summaries (\<lambda>a b. 0)
     [\<lparr> entry_id = ''a'', tank = ''Tank 1'', entry_count = 50, weight = 10,
        crateWeight = Some 2, crateCount = Some 2, team = ''Team A'',
        timestamp = ''2024-01-01T10:00:00.000Z'', synced = False \<rparr>]"]
    grand_totals [of "summaries (\<lambda>a b. 0) []"]
  by (simp add: summaries_def tankMap_def step_def sortBy_def accumulate_def zeroSummary_def
        entryCrateCount_def effectiveCrateWeight_def)

text \<open>
  With one entry of gross weight -10 (an edited or recalled record), \<open>totalGross\<close> is
  negative and not zero, yet the efficiency is 0 and not the quotient 118.
\<close>

theorem netEfficiency_negative_gross_counterexample:
  "netEfficiency (summaries (\<lambda>a b. 0)
     [\<lparr> entry_id = ''a'', tank = ''Tank 1'', entry_count = 50, weight = - 10,
        crateWeight = Some (9 / 5), crateCount = Some 1, team = ''Team A'',
        timestamp = ''2024-01-01T10:00:00.000Z'', synced = False \<rparr>])
   \<noteq> Some (if totalGross (summaries (\<lambda>a b. 0)
     [\<lparr> entry_id = ''a'', tank = ''Tank 1'', entry_count = 50, weight = - 10,
        crateWeight = Some (9 / 5), crateCount = Some 1, team = ''Team A'',
        timestamp = ''2024-01-01T10:00:00.000Z'', synced = False \<rparr>]) = 0 then 0
      else totalAbsolute (summaries (\<lambda>a b. 0)
     [\<lparr> entry_id = ''a'', tank = ''Tank 1'', entry_count = 50, weight = - 10,
        crateWeight = Some (9 / 5), crateCount = Some 1, team = ''Team A'',
        timestamp = ''2024-01-01T10:00:00.000Z'', synced = False \<rparr>])
        / totalGross (summaries (\<lambda>a b. 0)
     [\<lparr> entry_id = ''a'', tank = ''Tank 1'', entry_count = 50, weight = - 10,
        crateWeight = Some (9 / 5), crateCount = Some 1, team = ''Team A'',
        timestamp = ''2024-01-01T10:00:00.000Z'', synced = False \<rparr>]) * 100)"
  by (simp add: summaries_def tankMap_def step_def sortBy_def accumulate_def zeroSummary_def
        entryCrateCount_def effectiveCrateWeight_def netEfficiency_def totalGross_def
        totalAbsolute_def divide_js_def)

section \<open>The PDF export against the engine\<close>
















section \<open>Gross reconciliation\<close>




































section \<open>The add path\<close>

text \<open>
  C5. When the weight field parses to \<open>NaN\<close>, to zero or to a negative number, \<open>handleSave\<close>
  does not submit: the state is left exactly as it was, so no record is created, the store
  is not written, \<open>saveEntry\<close> is not called and the entry list is unchanged.
\<close>

theorem handleSave_rejects_invalid_weight:
  "numWeight = NaN \<or> (\<exists>w. numWeight = Num w \<and> w \<le> 0) \<Longrightarrow>
   handleSave numWeight cc newId now st = st"
  by (auto simp: handleSave_def)

text \<open>\<open>NaN\<close> and -3 leave the state as it is; 12 calls \<open>saveEntry\<close> once.\<close>

theorem handleSave_rejects_invalid_weight_witness:
  "handleSave NaN 2 ''id_1'' ''2024-01-01T10:00:00.000Z''
     \<lparr> db = \<lparr> openOk = True, txOk = True, objects = [] \<rparr>, entries = [],
       settings = defaults, lastSaved = None, alerts = [], saveEntryCalls = 0 \<rparr>
   = \<lparr> db = \<lparr> openOk = True, txOk = True, objects = [] \<rparr>, entries = [],
       settings = defaults, lastSaved = None, alerts = [], saveEntryCalls = 0 \<rparr> \<and>
   handleSave (Num (- 3)) 2 ''id_1'' ''2024-01-01T10:00:00.000Z''
     \<lparr> db = \<lparr> openOk = True, txOk = True, objects = [] \<rparr>, entries = [],
       settings = defaults, lastSaved = None, alerts = [], saveEntryCalls = 0 \<rparr>
   = \<lparr> db = \<lparr> openOk = True, txOk = True, objects = [] \<rparr>, entries = [],
       settings = defaults, lastSaved = None, alerts = [], saveEntryCalls = 0 \<rparr> \<and>
   saveEntryCalls (handleSave (Num 12) 2 ''id_1'' ''2024-01-01T10:00:00.000Z''
     \<lparr> db = \<lparr> openOk = True, txOk = True, objects = [] \<rparr>, entries = [],
       settings = defaults, lastSaved = None, alerts = [], saveEntryCalls = 0 \<rparr>) = 1"
proof -
  have a: "NaN = NaN \<or> (\<exists>w. NaN = Num w \<and> w \<le> 0)" by simp
  have b: "Num (- 3) = NaN \<or> (\<exists>w. Num (- 3) = Num w \<and> w \<le> 0)" by simp
  show ?thesis
    using handleSave_rejects_invalid_weight [OF a] handleSave_rejects_invalid_weight [OF b]
    by (simp add: handleSave_def handleAddEntry_def saveEntry_def Let_def)
qed

section \<open>Facts about plain objects and grouping\<close>

lemma groupBy_Some_iff:
  "(\<exists>r. groupBy key groups es = Some r) = (\<forall>e \<in> set es. key e \<notin> set protoKeys)"
  by (induction es arbitrary: groups) (auto simp: pushGroup_def)

lemma keys_groupBy:
  "groupBy key groups es = Some r \<Longrightarrow> fst ` set r = fst ` set groups \<union> key ` set es"
proof (induction es arbitrary: groups)
  case Nil
  then show ?case by simp
next
  case (Cons e es)
  from Cons.prems obtain g where g: "pushGroup (key e) e groups = Some g"
    and r: "groupBy key g es = Some r" by (auto split: option.splits)
  from g have "g = AList.update (key e)
      ((case map_of groups (key e) of None \<Rightarrow> [] | Some g \<Rightarrow> g) @ [e]) groups"
    by (simp add: pushGroup_def split: if_splits)
  then have "fst ` set g = {key e} \<union> fst ` set groups"
    by (simp only: dom_update)
  with Cons.IH [OF r] show ?case by auto
qed

lemma distinct_groupBy:
  "groupBy key groups es = Some r \<Longrightarrow> distinct (map fst groups) \<Longrightarrow> distinct (map fst r)"
proof (induction es arbitrary: groups)
  case Nil
  then show ?case by simp
next
  case (Cons e es)
  from Cons.prems(1) obtain g where g: "pushGroup (key e) e groups = Some g"
    and r: "groupBy key g es = Some r" by (auto split: option.splits)
  from g Cons.prems(2) have "distinct (map fst g)"
    by (auto simp: pushGroup_def distinct_update split: if_splits)
  with r show ?case by (rule Cons.IH)
qed

lemma map_of_groupBy:
  "groupBy key groups es = Some r \<Longrightarrow>
   map_of r t =
     (case map_of groups t of
        None \<Rightarrow> (if filter (\<lambda>e. key e = t) es = [] then None
                  else Some (filter (\<lambda>e. key e = t) es))
      | Some g \<Rightarrow> Some (g @ filter (\<lambda>e. key e = t) es))"
proof (induction es arbitrary: groups)
  case Nil
  then show ?case by (simp split: option.splits)
next
  case (Cons e es)
  from Cons.prems obtain g where g: "pushGroup (key e) e groups = Some g"
    and r: "groupBy key g es = Some r" by (auto split: option.splits)
  from g have g': "g = AList.update (key e)
      ((case map_of groups (key e) of None \<Rightarrow> [] | Some g \<Rightarrow> g) @ [e]) groups"
    by (simp add: pushGroup_def split: if_splits)
  show ?case
    unfolding Cons.IH [OF r] g' by (simp add: update_conv' split: option.splits)
qed

lemma set_objectEntries: "set (objectEntries obj) = set obj"
  by (auto simp: objectEntries_def)

text \<open>The log view's group of a tank is the list of that tank's entries, in input order.\<close>

lemma groupByTank_lookup:
  "groupByTank es = Some groups \<Longrightarrow>
   map_of groups t = (if tankEntries t es = [] then None else Some (tankEntries t es))"
  unfolding groupByTank_def tankEntries_def by (drule map_of_groupBy [where t = t]) simp

text \<open>The rows the log view renders for a tank are \<open>logRows\<close> of that tank's entries.\<close>

lemma sortedGroupedEntries_rows:
  assumes "sortedGroupedEntries tm es = Some gs" and "(t, rows) \<in> set gs"
  shows "tankRows rows = logRows tm (tankEntries t es)"
proof -
  from assms(1) obtain groups where groups: "groupByTank es = Some groups"
    and gs: "gs = sortBy (\<lambda>a b. tankLastActivity tm (snd b) - tankLastActivity tm (snd a))
          (objectEntries (map (\<lambda>(t, g). (t, sortBy (byTimeDesc tm) g)) groups))"
    by (auto simp: sortedGroupedEntries_def)
  from assms(2) obtain g where g: "(t, g) \<in> set groups"
    and rows: "rows = sortBy (byTimeDesc tm) g"
    unfolding gs by (auto simp: set_sortBy set_objectEntries)
  have "distinct (map fst groups)"
    using groups unfolding groupByTank_def by (rule distinct_groupBy) simp
  with g have "map_of groups t = Some g" by simp
  then have "g = tankEntries t es"
    using groupByTank_lookup [OF groups, of t] by (simp split: if_splits)
  with rows show ?thesis by (simp add: logRows_def)
qed

lemma keys_groupedByDate:
  "groupedByDate lc es = Some buckets \<Longrightarrow>
   fst ` set buckets = (\<lambda>e. datePrefix (timestamp e)) ` set es"
proof -
  assume "groupedByDate lc es = Some buckets"
  then obtain groups where g: "groupBy (\<lambda>entry. datePrefix (timestamp entry)) [] es = Some groups"
    and b: "buckets = sortBy (\<lambda>a b. lc (fst b) (fst a)) (objectEntries groups)"
    by (auto simp: groupedByDate_def)
  have "set buckets = set groups" unfolding b by (simp add: set_sortBy set_objectEntries)
  then show ?thesis using keys_groupBy [OF g] by simp
qed

lemma groupedByDate_Some_iff:
  "(\<exists>buckets. groupedByDate lc es = Some buckets) =
   (\<forall>e \<in> set es. datePrefix (timestamp e) \<notin> set protoKeys)"
  using groupBy_Some_iff [of "\<lambda>e. datePrefix (timestamp e)" "[]" es]
  by (auto simp: groupedByDate_def)

section \<open>Serial numbers in the log view\<close>

lemma tankRows_zip:
  "tankRows zs = zip zs (map (\<lambda>i. int (length zs) - int i) [0 ..< length zs])"
  by (simp add: tankRows_def serialNumber_def enumerate_eq_zip zip_map2 zip_commute [of zs]
        zip_map1 case_prod_unfold)

lemma rev_serials:
  "rev (map int [Suc 0 ..< Suc n]) = map (\<lambda>i. int n - int i) [0 ..< n]"
proof (rule nth_equalityI)
  show "length (rev (map int [Suc 0 ..< Suc n])) = length (map (\<lambda>i. int n - int i) [0 ..< n])"
    by (simp del: upt_Suc)
next
  fix i assume "i < length (rev (map int [Suc 0 ..< Suc n]))"
  then have i: "i < n" by (simp del: upt_Suc)
  then have "rev (map int [Suc 0 ..< Suc n]) ! i = map int [Suc 0 ..< Suc n] ! (n - Suc i)"
    by (simp add: rev_nth del: upt_Suc)
  also have "\<dots> = int (Suc 0 + (n - Suc i))" using i by (simp del: upt_Suc)
  also have "\<dots> = int n - int i" using i by simp
  finally show "rev (map int [Suc 0 ..< Suc n]) ! i = map (\<lambda>i. int n - int i) [0 ..< n] ! i"
    using i by simp
qed

lemma tankRows_rev:
  "tankRows (rev ys) = rev (zip ys (map int [1 ..< Suc (length ys)]))"
proof -
  have "length ys = length (map int [Suc 0 ..< Suc (length ys)])" by (simp del: upt_Suc)
  then have "rev (zip ys (map int [Suc 0 ..< Suc (length ys)])) =
             zip (rev ys) (rev (map int [Suc 0 ..< Suc (length ys)]))"
    by (rule zip_rev [symmetric])
  then show ?thesis
    unfolding rev_serials by (simp add: tankRows_zip del: upt_Suc)
qed

lemma countSerial_other:
  "k \<notin> entry_id ` set as \<Longrightarrow>
   map_of (snd (foldl countSerial (cs, sm) as)) k = map_of sm k"
  by (induction as arbitrary: cs sm) (simp_all add: countSerial_def Let_def update_conv')

lemma foldl_countSerial:
  assumes "\<forall>e \<in> set as. tank e = t" and "distinct (map entry_id as)"
  shows "\<forall>i < length as.
           map_of (snd (foldl countSerial (cs, sm) as)) (entry_id (as ! i)) =
           Some ((case map_of cs t of None \<Rightarrow> 0 | Some c \<Rightarrow> c) + int i + 1)"
  using assms
proof (induction as arbitrary: cs sm)
  case Nil
  show ?case by simp
next
  case (Cons a as)
  let ?c0 = "case map_of cs t of None \<Rightarrow> 0 | Some c \<Rightarrow> c"
  let ?cs = "AList.update t (?c0 + 1) cs"
  let ?sm = "AList.update (entry_id a) (?c0 + 1) sm"
  have ta: "tank a = t" using Cons.prems(1) by simp
  have step: "countSerial (cs, sm) a = (?cs, ?sm)"
    by (simp add: countSerial_def Let_def ta)
  have fresh: "entry_id a \<notin> entry_id ` set as" using Cons.prems(2) by simp
  have tanks: "\<forall>e \<in> set as. tank e = t" using Cons.prems(1) by simp
  have ids: "distinct (map entry_id as)" using Cons.prems(2) by simp
  have IH: "\<forall>i < length as.
           map_of (snd (foldl countSerial (?cs, ?sm) as)) (entry_id (as ! i)) =
           Some ((case map_of ?cs t of None \<Rightarrow> 0 | Some c \<Rightarrow> c) + int i + 1)"
    using tanks ids by (rule Cons.IH)
  show ?case
  proof (intro allI impI)
    fix i assume i: "i < length (a # as)"
    show "map_of (snd (foldl countSerial (cs, sm) (a # as))) (entry_id ((a # as) ! i)) =
          Some (?c0 + int i + 1)"
    proof (cases i)
      case 0
      have "map_of (snd (foldl countSerial (?cs, ?sm) as)) (entry_id a) = map_of ?sm (entry_id a)"
        using fresh by (rule countSerial_other)
      then show ?thesis using 0 by (simp add: step update_conv')
    next
      case (Suc j)
      then have "j < length as" using i by simp
      with IH have "map_of (snd (foldl countSerial (?cs, ?sm) as)) (entry_id (as ! j)) =
           Some ((case map_of ?cs t of None \<Rightarrow> 0 | Some c \<Rightarrow> c) + int j + 1)" by blast
      then show ?thesis using Suc by (simp add: step update_conv')
    qed
  qed
qed

text \<open>
  The daily report numbers a one-container set of records (distinct ids, timestamps that
  parse to distinct times, a tank name that \<open>Object.prototype\<close> does not answer) exactly as
  the ascending numbering does.
\<close>

lemma serialMap_chronological:
  assumes "\<forall>e \<in> set g. tank e = t" and "t \<notin> set protoKeys"
    and "distinct (map entry_id g)"
    and "distinct (map (\<lambda>e. tm (timestamp e)) g)"
  shows "\<exists>sm. serialMap tm g = Some sm \<and>
           (\<forall>i < length g.
              map_of sm (entry_id (fst (spec_serials tm g ! i))) =
              Some (snd (spec_serials tm g ! i)))"
proof -
  let ?f = "\<lambda>e. tm (timestamp e)"
  let ?as = "sort_key ?f g"
  have "mset (sortBy (byTimeDesc tm) g) = mset g" by (rule mset_sortBy)
  with assms(4) have "sort_key ?f (sortBy (byTimeDesc tm) g) = ?as" by (rule sort_key_perm)
  then have proc: "sortBy (byTimeAsc tm) (sortBy (byTimeDesc tm) g) = ?as"
    by (simp add: sortBy_byTimeAsc)
  have tanks: "\<forall>e \<in> set ?as. tank e = t" using assms(1) by simp
  then have "\<not> list_ex (\<lambda>e. tank e \<in> set protoKeys) ?as"
    using assms(2) by (auto simp: list_ex_iff)
  then have sm: "serialMap tm g = Some (snd (foldl countSerial ([], []) ?as))"
    by (simp add: serialMap_def Let_def proc)
  have "mset (map entry_id ?as) = mset (map entry_id g)" by simp
  then have ids: "distinct (map entry_id ?as)" using assms(3)
    by (metis mset_eq_imp_distinct_iff)
  have fold: "\<forall>i < length ?as.
           map_of (snd (foldl countSerial ([], []) ?as)) (entry_id (?as ! i)) =
           Some ((case map_of [] t of None \<Rightarrow> 0 | Some c \<Rightarrow> c) + int i + 1)"
    using tanks ids by (rule foldl_countSerial)
  have "\<forall>i < length g.
          map_of (snd (foldl countSerial ([], []) ?as)) (entry_id (fst (spec_serials tm g ! i))) =
          Some (snd (spec_serials tm g ! i))"
  proof (intro allI impI)
    fix i assume i: "i < length g"
    then have "spec_serials tm g ! i = (?as ! i, int (Suc i))"
      by (simp add: spec_serials_def sortBy_byTimeAsc del: upt_Suc)
    moreover have "map_of (snd (foldl countSerial ([], []) ?as)) (entry_id (?as ! i)) =
                   Some (int (Suc i))"
      using fold i by simp
    ultimately show "map_of (snd (foldl countSerial ([], []) ?as))
             (entry_id (fst (spec_serials tm g ! i))) = Some (snd (spec_serials tm g ! i))"
      by simp
  qed
  with sm show ?thesis by blast
qed

text \<open>
  C7 (as amended). For every set of entries of one container whose timestamps parse to
  pairwise different times (the values \<open>new Date(ts).getTime()\<close> the sorts compare; two
  different strings may denote one instant), the rows of the log view (the group sorted
  latest first, each row labelled \<open>countInGroup - displayIndex\<close>) pair every entry with the
  serial it gets when the group is sorted oldest first and numbered 1..N: the rows are that
  numbering read backwards. The rows are the same for every order in which the same
  entries are listed.
\<close>

theorem log_serials_chronological:
  assumes "distinct (map (\<lambda>e. tm (timestamp e)) g)"
  shows "logRows tm g = rev (spec_serials tm g) \<and>
         (\<forall>g'. mset g' = mset g \<longrightarrow> logRows tm g' = logRows tm g)"
proof -
  have "sortBy (byTimeDesc tm) g = rev (sortBy (byTimeAsc tm) g)"
    unfolding sortBy_byTimeDesc sortBy_byTimeAsc using assms by (rule sort_key_uminus)
  then have "logRows tm g = tankRows (rev (sortBy (byTimeAsc tm) g))"
    by (simp add: logRows_def)
  also have "\<dots> = rev (spec_serials tm g)"
    by (simp add: tankRows_rev spec_serials_def length_sortBy del: upt_Suc)
  finally have first: "logRows tm g = rev (spec_serials tm g)" .
  have second: "\<forall>g'. mset g' = mset g \<longrightarrow> logRows tm g' = logRows tm g"
  proof (intro allI impI)
    fix g' assume perm: "mset g' = mset g"
    have "inj_on (\<lambda>e. tm (timestamp e)) (set g)" "distinct g"
      using assms by (simp_all add: distinct_map)
    then have "distinct (map (\<lambda>e. - tm (timestamp e)) g)"
      by (simp add: distinct_map inj_on_def)
    then have "sort_key (\<lambda>e. - tm (timestamp e)) g' = sort_key (\<lambda>e. - tm (timestamp e)) g"
      using perm by (rule sort_key_perm)
    then show "logRows tm g' = logRows tm g"
      by (simp add: logRows_def sortBy_byTimeDesc)
  qed
  from first second show ?thesis by (rule conjI)
qed

text \<open>Three entries listed out of order: the latest is row 1 with serial 3.\<close>

theorem log_serials_chronological_witness:
  "logRows (\<lambda>ts. if ts = ''2024-01-01T10:00:00.000Z'' then 0
           else if ts = ''2024-01-01T10:05:00.000Z'' then 300000 else 600000)
     [\<lparr> entry_id = ''a'', tank = ''Tank 1'', entry_count = 50, weight = 10,
        crateWeight = Some (9 / 5), crateCount = Some 2, team = ''Team A'',
        timestamp = ''2024-01-01T10:00:00.000Z'', synced = False \<rparr>,
      \<lparr> entry_id = ''b'', tank = ''Tank 1'', entry_count = 50, weight = 11,
        crateWeight = Some (9 / 5), crateCount = Some 2, team = ''Team A'',
        timestamp = ''2024-01-01T10:10:00.000Z'', synced = False \<rparr>,
      \<lparr> entry_id = ''c'', tank = ''Tank 1'', entry_count = 50, weight = 12,
        crateWeight = Some (9 / 5), crateCount = Some 2, team = ''Team A'',
        timestamp = ''2024-01-01T10:05:00.000Z'', synced = False \<rparr>] =
     [(\<lparr> entry_id = ''b'', tank = ''Tank 1'', entry_count = 50, weight = 11,
        crateWeight = Some (9 / 5), crateCount = Some 2, team = ''Team A'',
        timestamp = ''2024-01-01T10:10:00.000Z'', synced = False \<rparr>, 3),
      (\<lparr> entry_id = ''c'', tank = ''Tank 1'', entry_count = 50, weight = 12,
        crateWeight = Some (9 / 5), crateCount = Some 2, team = ''Team A'',
        timestamp = ''2024-01-01T10:05:00.000Z'', synced = False \<rparr>, 2),
      (\<lparr> entry_id = ''a'', tank = ''Tank 1'', entry_count = 50, weight = 10,
        crateWeight = Some (9 / 5), crateCount = Some 2, team = ''Team A'',
        timestamp = ''2024-01-01T10:00:00.000Z'', synced = False \<rparr>, 1)]"
proof -
  let ?tm = "(\<lambda>ts. if ts = ''2024-01-01T10:00:00.000Z'' then 0
           else if ts = ''2024-01-01T10:05:00.000Z'' then 300000 else 600000) :: string \<Rightarrow> int"
  let ?g = "[\<lparr> entry_id = ''a'', tank = ''Tank 1'', entry_count = 50, weight = 10,
        crateWeight = Some (9 / 5), crateCount = Some 2, team = ''Team A'',
        timestamp = ''2024-01-01T10:00:00.000Z'', synced = False \<rparr>,
      \<lparr> entry_id = ''b'', tank = ''Tank 1'', entry_count = 50, weight = 11,
        crateWeight = Some (9 / 5), crateCount = Some 2, team = ''Team A'',
        timestamp = ''2024-01-01T10:10:00.000Z'', synced = False \<rparr>,
      \<lparr> entry_id = ''c'', tank = ''Tank 1'', entry_count = 50, weight = 12,
        crateWeight = Some (9 / 5), crateCount = Some 2, team = ''Team A'',
        timestamp = ''2024-01-01T10:05:00.000Z'', synced = False \<rparr>]"
  have 1: "distinct (map (\<lambda>e. ?tm (timestamp e)) ?g)" by simp
  have "rev (spec_serials ?tm ?g) =
     [(\<lparr> entry_id = ''b'', tank = ''Tank 1'', entry_count = 50, weight = 11,
        crateWeight = Some (9 / 5), crateCount = Some 2, team = ''Team A'',
        timestamp = ''2024-01-01T10:10:00.000Z'', synced = False \<rparr>, 3),
      (\<lparr> entry_id = ''c'', tank = ''Tank 1'', entry_count = 50, weight = 12,
        crateWeight = Some (9 / 5), crateCount = Some 2, team = ''Team A'',
        timestamp = ''2024-01-01T10:05:00.000Z'', synced = False \<rparr>, 2),
      (\<lparr> entry_id = ''a'', tank = ''Tank 1'', entry_count = 50, weight = 10,
        crateWeight = Some (9 / 5), crateCount = Some 2, team = ''Team A'',
        timestamp = ''2024-01-01T10:00:00.000Z'', synced = False \<rparr>, 1)]"
    by (simp add: spec_serials_def sortBy_def byTimeAsc_def)
  with log_serials_chronological [OF 1] show ?thesis by simp
qed

text \<open>
  Two entries of one tank with the same timestamp: the log view numbers the first listed 2,
  the ascending numbering numbers it 1, and listing them the other way round swaps the log
  view's serials.
\<close>

theorem log_serials_equal_timestamps_counterexample:
  "logRows (\<lambda>ts. 0)
     [\<lparr> entry_id = ''a'', tank = ''Tank 1'', entry_count = 50, weight = 10,
        crateWeight = Some (9 / 5), crateCount = Some 2, team = ''Team A'',
        timestamp = ''2024-01-01T10:00:00.000Z'', synced = False \<rparr>,
      \<lparr> entry_id = ''b'', tank = ''Tank 1'', entry_count = 50, weight = 11,
        crateWeight = Some (9 / 5), crateCount = Some 2, team = ''Team A'',
        timestamp = ''2024-01-01T10:00:00.000Z'', synced = False \<rparr>] \<noteq>
   rev (spec_serials (\<lambda>ts. 0)
     [\<lparr> entry_id = ''a'', tank = ''Tank 1'', entry_count = 50, weight = 10,
        crateWeight = Some (9 / 5), crateCount = Some 2, team = ''Team A'',
        timestamp = ''2024-01-01T10:00:00.000Z'', synced = False \<rparr>,
      \<lparr> entry_id = ''b'', tank = ''Tank 1'', entry_count = 50, weight = 11,
        crateWeight = Some (9 / 5), crateCount = Some 2, team = ''Team A'',
        timestamp = ''2024-01-01T10:00:00.000Z'', synced = False \<rparr>]) \<and>
   logRows (\<lambda>ts. 0)
     [\<lparr> entry_id = ''b'', tank = ''Tank 1'', entry_count = 50, weight = 11,
        crateWeight = Some (9 / 5), crateCount = Some 2, team = ''Team A'',
        timestamp = ''2024-01-01T10:00:00.000Z'', synced = False \<rparr>,
      \<lparr> entry_id = ''a'', tank = ''Tank 1'', entry_count = 50, weight = 10,
        crateWeight = Some (9 / 5), crateCount = Some 2, team = ''Team A'',
        timestamp = ''2024-01-01T10:00:00.000Z'', synced = False \<rparr>] \<noteq>
   logRows (\<lambda>ts. 0)
     [\<lparr> entry_id = ''a'', tank = ''Tank 1'', entry_count = 50, weight = 10,
        crateWeight = Some (9 / 5), crateCount = Some 2, team = ''Team A'',
        timestamp = ''2024-01-01T10:00:00.000Z'', synced = False \<rparr>,
      \<lparr> entry_id = ''b'', tank = ''Tank 1'', entry_count = 50, weight = 11,
        crateWeight = Some (9 / 5), crateCount = Some 2, team = ''Team A'',
        timestamp = ''2024-01-01T10:00:00.000Z'', synced = False \<rparr>]"
  by (simp add: logRows_def tankRows_def serialNumber_def spec_serials_def sortBy_def
        byTimeAsc_def byTimeDesc_def)

section \<open>The entry store\<close>

lemma wfStore_Cons:
  "wfStore (x # xs) = ((\<forall>y \<in> set xs. entry_id x < entry_id y) \<and> wfStore xs)"
  by (simp add: wfStore_def)

lemma wfStore_distinct: "wfStore s \<Longrightarrow> distinct (map entry_id s)"
  by (induction s) (auto simp: wfStore_Cons)

lemma wfStore_unique:
  "wfStore s \<Longrightarrow> a \<in> set s \<Longrightarrow> b \<in> set s \<Longrightarrow> entry_id a = entry_id b \<Longrightarrow> a = b"
  using wfStore_distinct [of s] by (meson distinct_map inj_onD)

lemma wfStore_map:
  "(\<And>e. entry_id (f e) = entry_id e) \<Longrightarrow> wfStore (map f s) = wfStore s"
  by (simp add: wfStore_def sorted_wrt_map)

lemma set_storePut: "set (storePut e s) \<subseteq> insert e (set s)"
  by (induction s) auto

lemma wfStore_storePut: "wfStore s \<Longrightarrow> wfStore (storePut e s)"
proof (induction s)
  case Nil
  then show ?case by (simp add: wfStore_def)
next
  case (Cons x xs)
  show ?case
  proof (cases "entry_id e = entry_id x")
    case True
    with Cons.prems show ?thesis by (simp add: wfStore_Cons)
  next
    case False
    show ?thesis
    proof (cases "entry_id e < entry_id x")
      case True
      with Cons.prems False show ?thesis by (auto simp: wfStore_Cons)
    next
      case ge: False
      with False have lt: "entry_id x < entry_id e" by simp
      have "\<forall>y \<in> set (storePut e xs). entry_id x < entry_id y"
        using set_storePut [of e xs] Cons.prems lt by (auto simp: wfStore_Cons)
      moreover have "wfStore (storePut e xs)" using Cons.IH Cons.prems by (simp add: wfStore_Cons)
      ultimately show ?thesis using False ge by (simp add: wfStore_Cons)
    qed
  qed
qed

lemma wfStore_storeDelete: "wfStore s \<Longrightarrow> wfStore (storeDelete k s)"
  by (simp add: wfStore_def storeDelete_def sorted_wrt_filter)

lemma storeGet_Some: "storeGet k s = Some r \<Longrightarrow> r \<in> set s \<and> entry_id r = k"
  by (induction s) (auto split: if_splits)

lemma storeGet_None: "(storeGet k s = None) = (k \<notin> entry_id ` set s)"
  by (induction s) auto

lemma storePut_replace:
  "wfStore s \<Longrightarrow> entry_id r \<in> entry_id ` set s \<Longrightarrow>
   storePut r s = map (\<lambda>e. if entry_id e = entry_id r then r else e) s"
proof (induction s)
  case Nil
  then show ?case by simp
next
  case (Cons x xs)
  show ?case
  proof (cases "entry_id r = entry_id x")
    case True
    then have "\<forall>y \<in> set xs. entry_id y \<noteq> entry_id r"
      using Cons.prems(1) by (auto simp: wfStore_Cons)
    then have "map (\<lambda>e. if entry_id e = entry_id r then r else e) xs = xs"
      by (simp add: map_idI)
    with True show ?thesis by simp
  next
    case False
    with Cons.prems have in_xs: "entry_id r \<in> entry_id ` set xs" by auto
    then have "entry_id x < entry_id r" using Cons.prems(1) by (auto simp: wfStore_Cons)
    then have "\<not> entry_id r < entry_id x" by simp
    moreover have "storePut r xs = map (\<lambda>e. if entry_id e = entry_id r then r else e) xs"
      using Cons.IH Cons.prems(1) in_xs by (simp add: wfStore_Cons)
    ultimately show ?thesis using False by simp
  qed
qed

lemma set_map_filter_storeGet:
  "set (List.map_filter (\<lambda>k. storeGet k s) ids) = {r \<in> set s. entry_id r \<in> set ids}"
  if "wfStore s"
proof -
  have "\<And>r. r \<in> set s \<Longrightarrow> storeGet (entry_id r) s = Some r"
  proof -
    fix r assume r: "r \<in> set s"
    then obtain r' where g: "storeGet (entry_id r) s = Some r'"
      using storeGet_None [of "entry_id r" s] by fastforce
    then have "r' \<in> set s" "entry_id r' = entry_id r" using storeGet_Some by blast+
    with r that have "r' = r" by (metis wfStore_unique)
    with g show "storeGet (entry_id r) s = Some r" by simp
  qed
  moreover have "\<And>k r. storeGet k s = Some r \<Longrightarrow> r \<in> set s \<and> entry_id r = k"
    by (rule storeGet_Some)
  ultimately show ?thesis
    by (force simp: map_filter_def)
qed

lemma foldl_put_synced:
  assumes "wfStore s" and "set rs \<subseteq> set s"
  shows "foldl (\<lambda>t r. storePut (r\<lparr>synced := True\<rparr>) t)
           (map (\<lambda>e. if entry_id e \<in> A then e\<lparr>synced := True\<rparr> else e) s) rs =
         map (\<lambda>e. if entry_id e \<in> A \<union> entry_id ` set rs then e\<lparr>synced := True\<rparr> else e) s"
  using assms(2)
proof (induction rs arbitrary: A)
  case Nil
  then show ?case by simp
next
  case (Cons r rs)
  let ?t = "map (\<lambda>e. if entry_id e \<in> A then e\<lparr>synced := True\<rparr> else e) s"
  have r: "r \<in> set s" and rs: "set rs \<subseteq> set s" using Cons.prems by auto
  have wf: "wfStore ?t" using assms(1) by (subst wfStore_map) auto
  have "map entry_id ?t = map entry_id s" by (induction s) auto
  then have "entry_id ` set ?t = entry_id ` set s" by (metis set_map)
  then have "entry_id (r\<lparr>synced := True\<rparr>) \<in> entry_id ` set ?t" using r by simp
  with wf have "storePut (r\<lparr>synced := True\<rparr>) ?t =
      map (\<lambda>e. if entry_id e = entry_id (r\<lparr>synced := True\<rparr>) then r\<lparr>synced := True\<rparr> else e) ?t"
    by (rule storePut_replace)
  also have "\<dots> = map (\<lambda>e. if entry_id e \<in> insert (entry_id r) A then e\<lparr>synced := True\<rparr> else e) s"
  proof (simp, intro ballI impI conjI)
    fix e assume "e \<in> set s" "entry_id e = entry_id r"
    with r assms(1) have "e = r" by (metis wfStore_unique)
    then show "r\<lparr>synced := True\<rparr> = e\<lparr>synced := True\<rparr>" by simp
  qed
  finally have step: "storePut (r\<lparr>synced := True\<rparr>) ?t =
      map (\<lambda>e. if entry_id e \<in> insert (entry_id r) A then e\<lparr>synced := True\<rparr> else e) s" .
  show ?case
    unfolding foldl.simps step using Cons.IH [OF rs, of "insert (entry_id r) A"]
    by (simp add: Un_commute insert_commute)
qed

text \<open>
  C9. On a store that opens and whose transaction completes, \<open>markSynced\<close> resolves for
  every list of ids, also when some ids are absent from the store: an absent id writes
  nothing, each record whose id is in the list has its \<open>synced\<close> field set to true and no
  other field changed, and every record whose id is not in the list is left as it was, in
  its place.
\<close>

theorem markSynced_frame:
  assumes "openOk d" and "txOk d" and "wfStore (objects d)"
  shows "\<exists>d'. markSynced ids d = Inr d' \<and>
           objects d' =
             map (\<lambda>e. if entry_id e \<in> set ids then e\<lparr>synced := True\<rparr> else e) (objects d)"
proof -
  let ?s = "objects d"
  let ?rs = "List.map_filter (\<lambda>k. storeGet k ?s) ids"
  have set_rs: "set ?rs = {r \<in> set ?s. entry_id r \<in> set ids}"
    using assms(3) by (rule set_map_filter_storeGet)
  then have sub: "set ?rs \<subseteq> set ?s" by auto
  have "foldl (\<lambda>t r. storePut (r\<lparr>synced := True\<rparr>) t)
          (map (\<lambda>e. if entry_id e \<in> {} then e\<lparr>synced := True\<rparr> else e) ?s) ?rs =
        map (\<lambda>e. if entry_id e \<in> {} \<union> entry_id ` set ?rs then e\<lparr>synced := True\<rparr> else e) ?s"
    using assms(3) sub by (rule foldl_put_synced)
  then have "foldl (\<lambda>t r. storePut (r\<lparr>synced := True\<rparr>) t) ?s ?rs =
        map (\<lambda>e. if entry_id e \<in> entry_id ` set ?rs then e\<lparr>synced := True\<rparr> else e) ?s"
    by simp
  also have "\<dots> = map (\<lambda>e. if entry_id e \<in> set ids then e\<lparr>synced := True\<rparr> else e) ?s"
    unfolding set_rs by (rule map_cong) auto
  finally show ?thesis using assms(1,2) by (simp add: markSynced_def)
qed

text \<open>Two stored records, one absent id and one present id in the list.\<close>

theorem markSynced_frame_witness:
  "markSynced [''id_zz'', ''id_b'']
     \<lparr> openOk = True, txOk = True, objects =
        [\<lparr> entry_id = ''id_a'', tank = ''Tank 1'', entry_count = 50, weight = 10,
           crateWeight = Some (9 / 5), crateCount = Some 2, team = ''Team A'',
           timestamp = ''2024-01-01T10:00:00.000Z'', synced = False \<rparr>,
         \<lparr> entry_id = ''id_b'', tank = ''Tank 2'', entry_count = 40, weight = 5,
           crateWeight = Some (9 / 5), crateCount = Some 1, team = ''Team B'',
           timestamp = ''2024-01-01T11:00:00.000Z'', synced = False \<rparr>] \<rparr>
   = Inr \<lparr> openOk = True, txOk = True, objects =
        [\<lparr> entry_id = ''id_a'', tank = ''Tank 1'', entry_count = 50, weight = 10,
           crateWeight = Some (9 / 5), crateCount = Some 2, team = ''Team A'',
           timestamp = ''2024-01-01T10:00:00.000Z'', synced = False \<rparr>,
         \<lparr> entry_id = ''id_b'', tank = ''Tank 2'', entry_count = 40, weight = 5,
           crateWeight = Some (9 / 5), crateCount = Some 1, team = ''Team B'',
           timestamp = ''2024-01-01T11:00:00.000Z'', synced = True \<rparr>] \<rparr>"
proof -
  let ?d = "\<lparr> openOk = True, txOk = True, objects =
        [\<lparr> entry_id = ''id_a'', tank = ''Tank 1'', entry_count = 50, weight = 10,
           crateWeight = Some (9 / 5), crateCount = Some 2, team = ''Team A'',
           timestamp = ''2024-01-01T10:00:00.000Z'', synced = False \<rparr>,
         \<lparr> entry_id = ''id_b'', tank = ''Tank 2'', entry_count = 40, weight = 5,
           crateWeight = Some (9 / 5), crateCount = Some 1, team = ''Team B'',
           timestamp = ''2024-01-01T11:00:00.000Z'', synced = False \<rparr>] \<rparr>"
  have 1: "openOk ?d" and 2: "txOk ?d" by simp_all
  have 3: "wfStore (objects ?d)" by (simp add: wfStore_def less_char_def)
  from markSynced_frame [OF 1 2 3, of "[''id_zz'', ''id_b'']"]
  obtain d' where d': "markSynced [''id_zz'', ''id_b''] ?d = Inr d'"
    and o: "objects d' = map (\<lambda>e. if entry_id e \<in> set [''id_zz'', ''id_b'']
                  then e\<lparr>synced := True\<rparr> else e) (objects ?d)" by blast
  have "openOk d' \<and> txOk d'" using d' by (simp add: markSynced_def split: if_splits) auto
  then have "d' = \<lparr> openOk = True, txOk = True, objects = objects d' \<rparr>" by simp
  with d' o show ?thesis by simp
qed

text \<open>
  Every operation of db.ts rejects when the connection cannot be opened or the transaction
  fails.
\<close>

lemma db_ts_operations_reject:
  "\<not> openOk d \<or> \<not> txOk d \<Longrightarrow>
   isl (saveEntry e d) \<and> isl (getAllEntries lc d) \<and> isl (getCount d) \<and>
   isl (deleteEntry k d) \<and> isl (deleteEntries ids d) \<and> isl (markSynced ids d)"
  by (auto simp: saveEntry_def getAllEntries_def getCount_def deleteEntry_def
        deleteEntries_def markSynced_def)

text \<open>
  C10. With a connection that cannot be opened, \<open>getAllEntries\<close> of the second copy of the
  service resolves with the empty list instead of rejecting, whatever the store holds;
  \<open>getAllEntries\<close> of db.ts rejects with the connection error.
\<close>

theorem getAllEntries_part004_swallows_open_failure:
  "getAllEntries_part004 \<lparr> openOk = False, txOk = t, objects = s \<rparr> = Inr [] \<and>
   getAllEntries lc \<lparr> openOk = False, txOk = t, objects = s \<rparr> = Inl ConnectionFailed"
  by (simp add: getAllEntries_part004_def getAllEntries_def)

section \<open>Deleting a date\<close>

text \<open>A reload makes the entry list mirror the store.\<close>

lemma loadData_mirror:
  "openOk (db st) \<Longrightarrow> txOk (db st) \<Longrightarrow>
   set (entries (loadData lc st)) = set (objects (db (loadData lc st)))"
  by (simp add: loadData_def getAllEntries_def set_sortBy)

lemma foldl_storeDelete:
  "foldl (\<lambda>s k. storeDelete k s) s ids = filter (\<lambda>e. entry_id e \<notin> set ids) s"
proof (induction ids arbitrary: s)
  case Nil
  then show ?case by simp
next
  case (Cons k ids)
  have "filter (\<lambda>e. entry_id e \<notin> set ids) (storeDelete k s) =
        filter (\<lambda>e. entry_id e \<notin> set (k # ids)) s"
    unfolding storeDelete_def filter_filter by (rule filter_cong) auto
  then show ?case by (simp add: Cons.IH)
qed

lemma startsWith_take: "startsWith date ts = (take (length date) ts = date)"
  by (induction date ts rule: startsWith.induct) auto

lemma datePrefix_take: "datePrefix ts = take (length (datePrefix ts)) ts"
  unfolding datePrefix_def by (induction ts) auto

lemma datePrefix_startsWith: "datePrefix ts = date \<Longrightarrow> startsWith date ts"
  unfolding startsWith_take using datePrefix_take [of ts] by simp

lemma startsWith_datePrefix:
  "length (datePrefix ts) = length date \<Longrightarrow> startsWith date ts \<Longrightarrow> datePrefix ts = date"
  unfolding startsWith_take using datePrefix_take [of ts] by simp

lemma deleteEntries_ok:
  "openOk d \<Longrightarrow> txOk d \<Longrightarrow>
   deleteEntries ids d = Inr (d\<lparr>objects := filter (\<lambda>e. entry_id e \<notin> set ids) (objects d)\<rparr>)"
  by (simp add: deleteEntries_def foldl_storeDelete)

lemma handleDeleteHistoryDate_store:
  assumes "openOk (db st)" and "txOk (db st)" and wf: "wfStore (objects (db st))"
    and mirror: "set (entries st) = set (objects (db st))"
  shows "objects (db (handleDeleteHistoryDate lc date st)) =
           filter (\<lambda>e. \<not> startsWith date (timestamp e)) (objects (db st)) \<and>
         set (entries (handleDeleteHistoryDate lc date st)) =
           set (filter (\<lambda>e. \<not> startsWith date (timestamp e)) (entries st))"
proof -
  let ?hit = "\<lambda>e. startsWith date (timestamp e)"
  let ?ids = "map entry_id (filter ?hit (entries st))"
  have member: "\<And>e. e \<in> set (objects (db st)) \<Longrightarrow> (entry_id e \<in> set ?ids) = ?hit e"
  proof -
    fix e assume e: "e \<in> set (objects (db st))"
    show "(entry_id e \<in> set ?ids) = ?hit e"
    proof
      assume "entry_id e \<in> set ?ids"
      then obtain e0 where e0: "e0 \<in> set (entries st)" "?hit e0" "entry_id e0 = entry_id e"
        by auto
      with mirror have "e0 \<in> set (objects (db st))" by simp
      with wf e e0(3) have "e0 = e" by (metis wfStore_unique)
      with e0(2) show "?hit e" by simp
    next
      assume "?hit e"
      with e mirror show "entry_id e \<in> set ?ids" by auto
    qed
  qed
  then have filt: "filter (\<lambda>e. entry_id e \<notin> set ?ids) (objects (db st)) =
                   filter (\<lambda>e. \<not> ?hit e) (objects (db st))"
    by (intro filter_cong) auto
  show ?thesis
  proof (cases "?ids = []")
    case True
    then have none: "\<forall>e \<in> set (entries st). \<not> ?hit e" by (simp add: filter_empty_conv)
    then have "filter (\<lambda>e. \<not> ?hit e) (objects (db st)) = objects (db st)"
      using mirror by (simp add: filter_id_conv)
    moreover have "filter (\<lambda>e. \<not> ?hit e) (entries st) = entries st"
      using none by (simp add: filter_id_conv)
    moreover have "handleDeleteHistoryDate lc date st = st"
      using True by (simp add: handleDeleteHistoryDate_def Let_def)
    ultimately show ?thesis by simp
  next
    case False
    let ?d = "(db st)\<lparr>objects := filter (\<lambda>e. \<not> ?hit e) (objects (db st))\<rparr>"
    have del: "deleteEntries ?ids (db st) = Inr ?d"
      using deleteEntries_ok [OF assms(1,2), of ?ids] unfolding filt .
    have "getAllEntries lc ?d =
            Inr (sortBy (\<lambda>a b. lc (timestamp b) (timestamp a)) (objects ?d))"
      using assms(1,2) by (simp add: getAllEntries_def)
    then have "loadData lc (st\<lparr>db := ?d\<rparr>) =
       st\<lparr>db := ?d, entries := sortBy (\<lambda>a b. lc (timestamp b) (timestamp a)) (objects ?d)\<rparr>"
      by (simp add: loadData_def)
    then have "handleDeleteHistoryDate lc date st =
       st\<lparr>db := ?d, entries := sortBy (\<lambda>a b. lc (timestamp b) (timestamp a)) (objects ?d)\<rparr>"
      using False del by (simp add: handleDeleteHistoryDate_def Let_def)
    then show ?thesis using mirror by (simp add: set_sortBy)
  qed
qed

lemma isDigit_not_T: "isDigit c \<Longrightarrow> c \<noteq> CHR ''T''"
  by (auto simp: isDigit_def)

lemma matches_Cons:
  "matches (p # ps) ts =
     (\<exists>c cs. ts = c # cs \<and> (if p = CHR ''d'' then isDigit c else c = p) \<and> matches ps cs)"
  by (cases ts) auto

lemma isoInstant_datePrefix:
  assumes "isoInstant ts"
  shows "length (datePrefix ts) = 10 \<and> isDigit (hd (datePrefix ts))"
proof -
  from assms obtain y1 y2 y3 y4 m1 m2 d1 d2 rest where
    ts: "ts = y1 # y2 # y3 # y4 # CHR ''-'' # m1 # m2 # CHR ''-'' # d1 # d2 # CHR ''T'' # rest"
    and dig: "isDigit y1" "isDigit y2" "isDigit y3" "isDigit y4" "isDigit m1" "isDigit m2"
      "isDigit d1" "isDigit d2"
    unfolding isoInstant_def by (auto simp: matches_Cons)
  from dig have "y1 \<noteq> CHR ''T''" "y2 \<noteq> CHR ''T''" "y3 \<noteq> CHR ''T''" "y4 \<noteq> CHR ''T''"
    "m1 \<noteq> CHR ''T''" "m2 \<noteq> CHR ''T''" "d1 \<noteq> CHR ''T''" "d2 \<noteq> CHR ''T''"
    by (simp_all add: isDigit_not_T)
  then have "datePrefix ts = [y1, y2, y3, y4, CHR ''-'', m1, m2, CHR ''-'', d1, d2]"
    unfolding ts datePrefix_def by simp
  with dig(1) show ?thesis by simp
qed

lemma protoKeys_no_digit: "k \<in> set protoKeys \<Longrightarrow> \<not> isDigit (hd k)"
  by (auto simp: protoKeys_def isDigit_def)

lemma isoInstant_not_protoKey: "isoInstant ts \<Longrightarrow> datePrefix ts \<notin> set protoKeys"
  using isoInstant_datePrefix [of ts] protoKeys_no_digit [of "datePrefix ts"] by blast

text \<open>
  C8. Let the entry list mirror a store that opens and completes its transaction, let
  every timestamp be one the application writes (\<open>toISOString\<close>), and let the date be the key
  of a bucket of the history. Deleting that date removes, from the store and from the
  reloaded entry list, exactly the entries whose date prefix (the substring before \<open>T\<close>)
  equals the date, and no other entry; regrouping the history afterwards succeeds and
  yields no bucket for that date.
\<close>

theorem delete_history_date:
  assumes "openOk (db st)" and "txOk (db st)" and "wfStore (objects (db st))"
    and "set (entries st) = set (objects (db st))"
    and "\<forall>e \<in> set (entries st). isoInstant (timestamp e)"
    and "groupedByDate lc (entries st) = Some buckets" and "date \<in> fst ` set buckets"
  shows "objects (db (handleDeleteHistoryDate lc date st)) =
           filter (\<lambda>e. datePrefix (timestamp e) \<noteq> date) (objects (db st)) \<and>
         set (entries (handleDeleteHistoryDate lc date st)) =
           {e \<in> set (entries st). datePrefix (timestamp e) \<noteq> date} \<and>
         (\<exists>buckets'. groupedByDate lc (entries (handleDeleteHistoryDate lc date st)) = Some buckets' \<and>
                     date \<notin> fst ` set buckets')"
proof -
  let ?st' = "handleDeleteHistoryDate lc date st"
  from assms(6,7) obtain e0 where e0: "e0 \<in> set (entries st)"
    and date: "date = datePrefix (timestamp e0)"
    using keys_groupedByDate [of lc "entries st" buckets] by auto
  have len: "length date = 10"
    unfolding date using assms(5) e0 isoInstant_datePrefix by blast
  have hit: "\<And>e. e \<in> set (entries st) \<Longrightarrow>
               startsWith date (timestamp e) = (datePrefix (timestamp e) = date)"
  proof -
    fix e assume "e \<in> set (entries st)"
    with assms(5) have "length (datePrefix (timestamp e)) = length date"
      unfolding len using isoInstant_datePrefix by blast
    then show "startsWith date (timestamp e) = (datePrefix (timestamp e) = date)"
      using startsWith_datePrefix datePrefix_startsWith by blast
  qed
  from handleDeleteHistoryDate_store [OF assms(1-4), of lc date]
  have store: "objects (db ?st') =
           filter (\<lambda>e. \<not> startsWith date (timestamp e)) (objects (db st))"
    and left: "set (entries ?st') = {e \<in> set (entries st). \<not> startsWith date (timestamp e)}"
    by auto
  have "filter (\<lambda>e. \<not> startsWith date (timestamp e)) (objects (db st)) =
        filter (\<lambda>e. datePrefix (timestamp e) \<noteq> date) (objects (db st))"
    using hit assms(4) by (intro filter_cong) auto
  with store have one: "objects (db ?st') =
           filter (\<lambda>e. datePrefix (timestamp e) \<noteq> date) (objects (db st))" by simp
  have two: "set (entries ?st') = {e \<in> set (entries st). datePrefix (timestamp e) \<noteq> date}"
    unfolding left using hit by auto
  have "\<forall>e \<in> set (entries ?st'). datePrefix (timestamp e) \<notin> set protoKeys"
    unfolding two using assms(5) isoInstant_not_protoKey by blast
  then obtain buckets' where b': "groupedByDate lc (entries ?st') = Some buckets'"
    using groupedByDate_Some_iff [of lc "entries ?st'"] by blast
  have "date \<notin> fst ` set buckets'"
    unfolding keys_groupedByDate [OF b'] two by auto
  with b' have three: "\<exists>buckets'. groupedByDate lc (entries ?st') = Some buckets' \<and>
                     date \<notin> fst ` set buckets'" by blast
  from one two three show ?thesis by blast
qed

text \<open>Two days in the store; the first is deleted and only the record of the second remains.\<close>

theorem delete_history_date_witness:
  "objects (db (handleDeleteHistoryDate (\<lambda>a b. 0) ''2024-01-01''
     \<lparr> db = \<lparr> openOk = True, txOk = True, objects =
        [\<lparr> entry_id = ''id_a'', tank = ''Tank 1'', entry_count = 50, weight = 10,
           crateWeight = Some (9 / 5), crateCount = Some 2, team = ''Team A'',
           timestamp = ''2024-01-01T10:00:00.000Z'', synced = False \<rparr>,
         \<lparr> entry_id = ''id_b'', tank = ''Tank 1'', entry_count = 50, weight = 8,
           crateWeight = Some (9 / 5), crateCount = Some 1, team = ''Team A'',
           timestamp = ''2024-01-02T09:00:00.000Z'', synced = False \<rparr>] \<rparr>,
       entries =
        [\<lparr> entry_id = ''id_b'', tank = ''Tank 1'', entry_count = 50, weight = 8,
           crateWeight = Some (9 / 5), crateCount = Some 1, team = ''Team A'',
           timestamp = ''2024-01-02T09:00:00.000Z'', synced = False \<rparr>,
         \<lparr> entry_id = ''id_a'', tank = ''Tank 1'', entry_count = 50, weight = 10,
           crateWeight = Some (9 / 5), crateCount = Some 2, team = ''Team A'',
           timestamp = ''2024-01-01T10:00:00.000Z'', synced = False \<rparr>],
       settings = defaults, lastSaved = None, alerts = [], saveEntryCalls = 0 \<rparr>)) =
     [\<lparr> entry_id = ''id_b'', tank = ''Tank 1'', entry_count = 50, weight = 8,
           crateWeight = Some (9 / 5), crateCount = Some 1, team = ''Team A'',
           timestamp = ''2024-01-02T09:00:00.000Z'', synced = False \<rparr>]"
proof -
  let ?st = "\<lparr> db = \<lparr> openOk = True, txOk = True, objects =
        [\<lparr> entry_id = ''id_a'', tank = ''Tank 1'', entry_count = 50, weight = 10,
           crateWeight = Some (9 / 5), crateCount = Some 2, team = ''Team A'',
           timestamp = ''2024-01-01T10:00:00.000Z'', synced = False \<rparr>,
         \<lparr> entry_id = ''id_b'', tank = ''Tank 1'', entry_count = 50, weight = 8,
           crateWeight = Some (9 / 5), crateCount = Some 1, team = ''Team A'',
           timestamp = ''2024-01-02T09:00:00.000Z'', synced = False \<rparr>] \<rparr>,
       entries =
        [\<lparr> entry_id = ''id_b'', tank = ''Tank 1'', entry_count = 50, weight = 8,
           crateWeight = Some (9 / 5), crateCount = Some 1, team = ''Team A'',
           timestamp = ''2024-01-02T09:00:00.000Z'', synced = False \<rparr>,
         \<lparr> entry_id = ''id_a'', tank = ''Tank 1'', entry_count = 50, weight = 10,
           crateWeight = Some (9 / 5), crateCount = Some 2, team = ''Team A'',
           timestamp = ''2024-01-01T10:00:00.000Z'', synced = False \<rparr>],
       settings = defaults, lastSaved = None, alerts = [], saveEntryCalls = 0 \<rparr>"
  have 1: "openOk (db ?st)" and 2: "txOk (db ?st)" by simp_all
  have 3: "wfStore (objects (db ?st))" by (simp add: wfStore_def less_char_def)
  have 4: "set (entries ?st) = set (objects (db ?st))" by auto
  have 5: "\<forall>e \<in> set (entries ?st). isoInstant (timestamp e)"
    by (simp add: isoInstant_def isDigit_def)
  have 6: "groupedByDate (\<lambda>a b. 0) (entries ?st) =
     Some [(''2024-01-02'', [\<lparr> entry_id = ''id_b'', tank = ''Tank 1'', entry_count = 50, weight = 8,
           crateWeight = Some (9 / 5), crateCount = Some 1, team = ''Team A'',
           timestamp = ''2024-01-02T09:00:00.000Z'', synced = False \<rparr>]),
           (''2024-01-01'', [\<lparr> entry_id = ''id_a'', tank = ''Tank 1'', entry_count = 50, weight = 10,
           crateWeight = Some (9 / 5), crateCount = Some 2, team = ''Team A'',
           timestamp = ''2024-01-01T10:00:00.000Z'', synced = False \<rparr>])]"
    by (simp add: groupedByDate_def pushGroup_def protoKeys_def objectEntries_def
          isArrayIndex_def isDigit_def datePrefix_def sortBy_def)
  have 7: "''2024-01-01'' \<in> fst ` set [(''2024-01-02'', [\<lparr> entry_id = ''id_b'', tank = ''Tank 1'', entry_count = 50, weight = 8,
           crateWeight = Some (9 / 5), crateCount = Some 1, team = ''Team A'',
           timestamp = ''2024-01-02T09:00:00.000Z'', synced = False \<rparr>]),
           (''2024-01-01'', [\<lparr> entry_id = ''id_a'', tank = ''Tank 1'', entry_count = 50, weight = 10,
           crateWeight = Some (9 / 5), crateCount = Some 2, team = ''Team A'',
           timestamp = ''2024-01-01T10:00:00.000Z'', synced = False \<rparr>])]" by simp
  from delete_history_date [OF 1 2 3 4 5 6 7]
  show ?thesis by (simp add: datePrefix_def)
qed

end
